theory Spec2Isabelle
  imports Complex_Main "HOL-Library.Log_Nat"
begin

section \<open>Python values: errors and floats\<close>

text \<open>
  The scripts raise Python exceptions, their own and those of the imaging library.
  A \<open>ValueError\<close> carries the message that tells its origin apart:
  \<^item> \<open>Mode_Must_Be_Cover_Or_Contain\<close>: "mode must be 'cover' or 'contain'", raised by
    \<open>resize_to_poster\<close> itself (line 67 of tile_to_A4_2x2.py);
  \<^item> \<open>Height_And_Width_Must_Be_Positive\<close>: "height and width must be > 0", raised by
    the library's \<open>Image.resize\<close> for a requested size below 1 on either axis;
  \<^item> \<open>Coordinate_Right_Less_Than_Left\<close>, \<open>Coordinate_Lower_Less_Than_Upper\<close>: raised
    by \<open>Image.crop\<close> for a box with a negative extent;
  \<^item> \<open>Width_And_Height_Must_Be_Nonnegative\<close>: "Width and height must be >= 0", raised
    by \<open>Image.new\<close>.
  \<open>OverflowError\<close> is raised for a number beyond the floats and for a size beyond the
  C integers of the library, \<open>MemoryError\<close> by the library for an image it cannot build.
\<close>

datatype value_error =
    Mode_Must_Be_Cover_Or_Contain
  | Height_And_Width_Must_Be_Positive
  | Coordinate_Right_Less_Than_Left
  | Coordinate_Lower_Less_Than_Upper
  | Width_And_Height_Must_Be_Nonnegative

datatype py_error = ValueError value_error | ZeroDivisionError | OverflowError | MemoryError

definition bind_err :: "py_error + 'a \<Rightarrow> ('a \<Rightarrow> py_error + 'b) \<Rightarrow> py_error + 'b" where
  "bind_err m f = (case m of Inl e \<Rightarrow> Inl e | Inr v \<Rightarrow> f v)"

text \<open>
  A Python \<open>float\<close> is an IEEE 754 binary64 number. A finite float is modelled by the
  rational it denotes; every arithmetic result is the exact result rounded to the nearest
  binary64 number, ties to the even significand. \<open>binade x\<close> is the exponent
  \<open>\<lfloor>log\<^sub>2 \<bar>x\<bar>\<rfloor>\<close>; below 2 to the power -1022 the spacing is that of the subnormal numbers.
\<close>

definition round_half_even :: "rat \<Rightarrow> int" where
  "round_half_even x =
     (let f = \<lfloor>x\<rfloor>; d = x - of_int f
      in if d < 1 / 2 then f else if 1 / 2 < d then f + 1 else if even f then f else f + 1)"

definition binade :: "rat \<Rightarrow> int" where
  "binade x =
     (case quotient_of \<bar>x\<bar> of (p, q) \<Rightarrow>
        let d = bitlen p - bitlen q in if 2 powi d \<le> \<bar>x\<bar> then d else d - 1)"

definition round_binary64 :: "rat \<Rightarrow> rat" where
  "round_binary64 x =
     (if x = 0 then 0
      else let e = max (binade x) (- 1022); ulp = 2 powi (e - 52)
           in of_int (round_half_even (x / ulp)) * ulp)"

text \<open>
  The largest exponent of a finite binary64 number is 1023: a rounded result whose
  exponent is larger (one of magnitude 2 to the power 1024 or more) is out of range.
\<close>

definition float_overflow :: "rat \<Rightarrow> bool" where
  "float_overflow r = (r \<noteq> 0 \<and> 1023 < binade r)"

text \<open>
  \<open>to_float\<close> rounds an exact result into the floats. A division of integers beyond the
  float range and the conversion of such an integer raise \<open>OverflowError\<close>. A product
  of floats beyond the range is \<open>inf\<close> in Python; every product of these scripts is
  the argument of \<open>round\<close> in the same statement, which raises \<open>OverflowError\<close> for
  \<open>inf\<close>, so the error is the product's result here.
\<close>

definition to_float :: "rat \<Rightarrow> py_error + rat" where
  "to_float x = (let r = round_binary64 x in if float_overflow r then Inl OverflowError else Inr r)"

definition int_to_float :: "int \<Rightarrow> py_error + rat" where
  "int_to_float n = to_float (of_int n)"

definition int_truediv :: "int \<Rightarrow> int \<Rightarrow> py_error + rat" where
  "int_truediv a b = (if b = 0 then Inl ZeroDivisionError else to_float (of_int a / of_int b))"

definition float_mul :: "rat \<Rightarrow> rat \<Rightarrow> py_error + rat" where
  "float_mul a b = to_float (a * b)"

definition int_times_float :: "int \<Rightarrow> rat \<Rightarrow> py_error + rat" where
  "int_times_float n f = bind_err (int_to_float n) (\<lambda>d. float_mul d f)"

definition float_times_int :: "rat \<Rightarrow> int \<Rightarrow> py_error + rat" where
  "float_times_int f n = bind_err (int_to_float n) (\<lambda>d. float_mul f d)"

text \<open>\<open>int(round(x))\<close>: Python rounds a float to the nearest integer, ties to even.\<close>

definition py_round :: "rat \<Rightarrow> int" where
  "py_round x = round_half_even x"

section \<open>Raster images and the library operations the scripts call\<close>

text \<open>
  An image is its size and its pixels, addressed by column \<open>x\<close> and row \<open>y\<close>; only the
  pixels with \<open>0 \<le> x < width\<close> and \<open>0 \<le> y < height\<close> belong to it. Pixels are RGB
  triples. The Lanczos resampling of \<open>Image.resize\<close> is floating-point convolution
  inside the library: the model takes the filter as a parameter that gives the pixels of
  the resized image.
\<close>

type_synonym pixel = "nat \<times> nat \<times> nat"

record image =
  width :: int
  height :: int
  px :: "int \<Rightarrow> int \<Rightarrow> pixel"

type_synonym resampler = "image \<Rightarrow> int \<Rightarrow> int \<Rightarrow> int \<Rightarrow> int \<Rightarrow> pixel"

text \<open>
  \<open>Image.resize(size, LANCZOS)\<close>, in the order of the library's own steps:
  \<^item> a request for the image's own size returns a copy at once, before any check;
  \<^item> the size is parsed into two C integers: \<open>OverflowError\<close> for a dimension
    outside their range;
  \<^item> \<open>ValueError\<close> "height and width must be > 0" for a dimension below 1;
  \<^item> the table of Lanczos coefficients, 7 doubles for each pixel along an axis of an
    enlargement, may take \<open>INT_MAX\<close> bytes at most: \<open>MemoryError\<close> for a dimension
    above \<open>INT_MAX div 56 = 38347922\<close>.
  The model ends there. The larger table of a reduction by a factor in the thousands,
  and the memory of the machine, can raise \<open>MemoryError\<close> for smaller sizes; they are
  not modelled, and what is proved of the fitter is stated for each outcome of the
  resize. The pixels of the result are the resampler's, also those of the copy.
\<close>

definition c_int :: "int \<Rightarrow> bool" where
  "c_int n = (- (2 ^ 31) \<le> n \<and> n < 2 ^ 31)"

definition lanczos_max_size :: int where
  "lanczos_max_size = (2 ^ 31 - 1) div (7 * 8)"

definition resize :: "resampler \<Rightarrow> image \<Rightarrow> int \<times> int \<Rightarrow> py_error + image" where
  "resize resample img new_size =
     (case new_size of (xsize, ysize) \<Rightarrow>
        if new_size = (width img, height img)
        then Inr \<lparr>width = xsize, height = ysize, px = resample img xsize ysize\<rparr>
        else if \<not> c_int xsize \<or> \<not> c_int ysize then Inl OverflowError
        else if xsize < 1 \<or> ysize < 1 then Inl (ValueError Height_And_Width_Must_Be_Positive)
        else if lanczos_max_size < xsize \<or> lanczos_max_size < ysize then Inl MemoryError
        else Inr \<lparr>width = xsize, height = ysize, px = resample img xsize ysize\<rparr>)"

text \<open>
  \<open>Image.crop\<close> returns the box's size whatever the image's size is; a pixel of the box
  outside the image is filled with zeros.
\<close>

definition crop :: "image \<Rightarrow> int \<times> int \<times> int \<times> int \<Rightarrow> py_error + image" where
  "crop img box =
     (case box of (left, upper, right, lower) \<Rightarrow>
        if right < left then Inl (ValueError Coordinate_Right_Less_Than_Left)
        else if lower < upper then Inl (ValueError Coordinate_Lower_Less_Than_Upper)
        else Inr \<lparr>width = right - left, height = lower - upper,
                  px = (\<lambda>x y. if 0 \<le> x + left \<and> x + left < width img
                                  \<and> 0 \<le> y + upper \<and> y + upper < height img
                               then px img (x + left) (y + upper) else (0, 0, 0))\<rparr>)"

definition new_image :: "int \<times> int \<Rightarrow> pixel \<Rightarrow> py_error + image" where
  "new_image new_size color =
     (case new_size of (w, h) \<Rightarrow>
        if w < 0 \<or> h < 0 then Inl (ValueError Width_And_Height_Must_Be_Nonnegative)
        else Inr \<lparr>width = w, height = h, px = (\<lambda>x y. color)\<rparr>)"

text \<open>\<open>bg.paste(im, (left, top))\<close> overwrites the rectangle \<open>im\<close> covers, nothing else.\<close>

definition paste :: "image \<Rightarrow> image \<Rightarrow> int \<times> int \<Rightarrow> image" where
  "paste bg im pos =
     (case pos of (left, top') \<Rightarrow>
        bg\<lparr>px := (\<lambda>x y. if left \<le> x \<and> x < left + width im \<and> top' \<le> y \<and> y < top' + height im
                        then px im (x - left) (y - top') else px bg x y)\<rparr>)"

section \<open>tile\_to\_A4\_2x2.py\<close>

definition A4_MM :: "rat \<times> rat" where
  "A4_MM = (210, 297)"

text \<open>\<open>mm_value / 25.4\<close>, the literal \<open>25.4\<close> being the float nearest to 127/5.\<close>

definition mm_to_inches :: "rat \<Rightarrow> rat" where
  "mm_to_inches mm_value = round_binary64 (mm_value / round_binary64 (127 / 5))"

definition a4_pixels :: "int \<Rightarrow> py_error + (int \<times> int)" where
  "a4_pixels dpi =
     (let w_in = mm_to_inches (fst A4_MM);
          h_in = mm_to_inches (snd A4_MM)
      in bind_err (float_times_int w_in dpi) (\<lambda>w.
         bind_err (float_times_int h_in dpi) (\<lambda>h.
           Inr (py_round w, py_round h))))"

text \<open>Line 48: \<open>scale = max(tw / img.width, th / img.height)\<close>.\<close>

definition cover_scale :: "image \<Rightarrow> int \<Rightarrow> int \<Rightarrow> py_error + rat" where
  "cover_scale img tw th =
     bind_err (int_truediv tw (width img)) (\<lambda>rw.
     bind_err (int_truediv th (height img)) (\<lambda>rh.
       Inr (max rw rh)))"

text \<open>Line 57: \<open>scale = min(tw / img.width, th / img.height)\<close>.\<close>

definition contain_scale :: "image \<Rightarrow> int \<Rightarrow> int \<Rightarrow> py_error + rat" where
  "contain_scale img tw th =
     bind_err (int_truediv tw (width img)) (\<lambda>rw.
     bind_err (int_truediv th (height img)) (\<lambda>rh.
       Inr (min rw rh)))"

text \<open>
  Lines 49-50 and 58-59: \<open>new_w = int(round(img.width * scale))\<close> and
  \<open>new_h = int(round(img.height * scale))\<close>.
\<close>

definition scaled_size :: "image \<Rightarrow> rat \<Rightarrow> py_error + (int \<times> int)" where
  "scaled_size img scale =
     bind_err (int_times_float (width img) scale) (\<lambda>fw.
     bind_err (int_times_float (height img) scale) (\<lambda>fh.
       Inr (py_round fw, py_round fh)))"

definition resize_to_poster ::
  "resampler \<Rightarrow> image \<Rightarrow> int \<times> int \<Rightarrow> string \<Rightarrow> py_error + image" where
  "resize_to_poster lanczos img target_size mode =
     (case target_size of (tw, th) \<Rightarrow>
        if mode = ''cover'' then
          bind_err (cover_scale img tw th) (\<lambda>scale.
          bind_err (scaled_size img scale) (\<lambda>(new_w, new_h).
          bind_err (resize lanczos img (new_w, new_h)) (\<lambda>img_resized.
            let left = (new_w - tw) div 2;
                top' = (new_h - th) div 2
            in crop img_resized (left, top', left + tw, top' + th))))
        else if mode = ''contain'' then
          bind_err (contain_scale img tw th) (\<lambda>scale.
          bind_err (scaled_size img scale) (\<lambda>(new_w, new_h).
          bind_err (resize lanczos img (new_w, new_h)) (\<lambda>img_resized.
          bind_err (new_image (tw, th) (255, 255, 255)) (\<lambda>bg.
            let left = (tw - new_w) div 2;
                top' = (th - new_h) div 2
            in Inr (paste bg img_resized (left, top'))))))
        else Inl (ValueError Mode_Must_Be_Cover_Or_Contain))"

text \<open>
  A loop that appends one result per element and is aborted by the first exception.
\<close>

fun map_err :: "('a \<Rightarrow> py_error + 'b) \<Rightarrow> 'a list \<Rightarrow> py_error + 'b list" where
  "map_err f [] = Inr []"
| "map_err f (x # xs) =
     (case f x of
        Inl e \<Rightarrow> Inl e
      | Inr y \<Rightarrow> (case map_err f xs of Inl e \<Rightarrow> Inl e | Inr ys \<Rightarrow> Inr (y # ys)))"

text \<open>
  Lines 140-148 of \<open>main\<close>: the tiles in the order \<open>for row in range(2): for col in
  range(2)\<close>, each with its \<open>(row, col)\<close>.
\<close>

definition slice_tiles :: "image \<Rightarrow> int \<Rightarrow> int \<Rightarrow> py_error + ((int \<times> int) \<times> image) list" where
  "slice_tiles poster a4_w_px a4_h_px =
     map_err (\<lambda>(row, col).
        let left = col * a4_w_px;
            top' = row * a4_h_px;
            right = left + a4_w_px;
            bottom = top' + a4_h_px
        in bind_err (crop poster (left, top', right, bottom)) (\<lambda>tile. Inr ((row, col), tile)))
       (List.product [0..1] [0..1])"

text \<open>
  \<open>main\<close> from the opened image to the list of tiles it saves (lines 126-148); the
  image is taken as RGB, which line 134 establishes for the other modes.
\<close>

definition main_tiles ::
  "resampler \<Rightarrow> image \<Rightarrow> int \<Rightarrow> string \<Rightarrow> py_error + ((int \<times> int) \<times> image) list" where
  "main_tiles lanczos img dpi mode =
     bind_err (a4_pixels dpi) (\<lambda>(a4_w_px, a4_h_px).
       let poster_w_px = a4_w_px * 2;
           poster_h_px = a4_h_px * 2
       in bind_err (resize_to_poster lanczos img (poster_w_px, poster_h_px) mode) (\<lambda>poster.
            slice_tiles poster a4_w_px a4_h_px))"

section \<open>2x2.py and 2x1.py\<close>








section \<open>Notions of the specification\<close>

text \<open>A size the imaging library can hold: positive and below 2 to the power 31.\<close>

definition pil_dim :: "int \<Rightarrow> bool" where
  "pil_dim n = (0 < n \<and> n < 2 ^ 31)"

text \<open>The pixel \<open>(x, y)\<close> lies inside an image of the given size.\<close>

definition inside :: "int \<Rightarrow> int \<Rightarrow> int \<Rightarrow> int \<Rightarrow> bool" where
  "inside w h x y = (0 \<le> x \<and> x < w \<and> 0 \<le> y \<and> y < h)"




text \<open>The size of a result, for comparing results without comparing pixel functions.\<close>

definition result_size :: "py_error + image \<Rightarrow> py_error + (int \<times> int)" where
  "result_size r = (case r of Inl e \<Rightarrow> Inl e | Inr img \<Rightarrow> Inr (width img, height img))"

definition tile_sizes :: "py_error + ('k \<times> image) list \<Rightarrow> py_error + ('k \<times> int \<times> int) list" where
  "tile_sizes r =
     (case r of Inl e \<Rightarrow> Inl e
      | Inr ts \<Rightarrow> Inr (map (\<lambda>(k, t). (k, width t, height t)) ts))"

text \<open>Concrete inputs: an image whose pixels tell their position, and a resampling
  filter (nearest neighbour) standing for the library's.\<close>

definition ramp :: "int \<Rightarrow> int \<Rightarrow> image" where
  "ramp w h = \<lparr>width = w, height = h, px = (\<lambda>x y. (nat x mod 256, nat y mod 256, 0))\<rparr>"

definition nearest :: resampler where
  "nearest img xsize ysize x y = px img (x * width img div xsize) (y * height img div ysize)"

section \<open>Rounding\<close>

lemma rhe_cases:
  "round_half_even y = \<lfloor>y\<rfloor> \<and> y - of_int \<lfloor>y\<rfloor> \<le> 1 / 2
   \<or> round_half_even y = \<lfloor>y\<rfloor> + 1 \<and> 1 / 2 \<le> y - of_int \<lfloor>y\<rfloor>"
  by (auto simp: round_half_even_def Let_def)

lemma rhe_error: "\<bar>of_int (round_half_even y) - y\<bar> \<le> 1 / 2"
proof -
  have "of_int \<lfloor>y\<rfloor> \<le> y" "y < of_int \<lfloor>y\<rfloor> + 1" by linarith+
  with rhe_cases [of y] show ?thesis by auto
qed

lemma rhe_of_int: "round_half_even (of_int k) = k"
  by (simp add: round_half_even_def)

lemma rhe_lower: "of_int k - 1 / 2 < y \<Longrightarrow> k \<le> round_half_even y"
proof -
  assume a: "of_int k - 1 / 2 < y"
  have "\<bar>of_int (round_half_even y) - y\<bar> \<le> 1 / 2" by (rule rhe_error)
  then have "of_int k - 1 < (of_int (round_half_even y) :: rat)" using a by linarith
  then have "(of_int (k - 1) :: rat) < of_int (round_half_even y)" by simp
  then have "k - 1 < round_half_even y" by (simp only: of_int_less_iff)
  then show ?thesis by simp
qed

lemma rhe_upper: "y < of_int k + 1 / 2 \<Longrightarrow> round_half_even y \<le> k"
proof -
  assume a: "y < of_int k + 1 / 2"
  have "\<bar>of_int (round_half_even y) - y\<bar> \<le> 1 / 2" by (rule rhe_error)
  then have "(of_int (round_half_even y) :: rat) < of_int k + 1" using a by linarith
  then have "(of_int (round_half_even y) :: rat) < of_int (k + 1)" by simp
  then have "round_half_even y < k + 1" by (simp only: of_int_less_iff)
  then show ?thesis by simp
qed

lemma rhe_nonpos: "y \<le> 0 \<Longrightarrow> round_half_even y \<le> 0"
  using rhe_upper [of y 0] by simp

lemma rhe_nonneg: "0 \<le> y \<Longrightarrow> 0 \<le> round_half_even y"
  using rhe_lower [of 0 y] by simp

lemma binade_bounds:
  assumes "x \<noteq> 0"
  shows "2 powi binade x \<le> \<bar>x\<bar>" and "\<bar>x\<bar> < 2 powi (binade x + 1)"
proof -
  obtain p q where pq: "quotient_of \<bar>x\<bar> = (p, q)" by (cases "quotient_of \<bar>x\<bar>")
  have q: "0 < q" using pq by (rule quotient_of_denom_pos)
  have x: "\<bar>x\<bar> = of_int p / of_int q" using pq by (rule quotient_of_div)
  have "0 < \<bar>x\<bar>" using assms by simp
  then have p: "0 < p" using x q by (simp add: zero_less_divide_iff)
  define bp where "bp = bitlen p"
  define bq where "bq = bitlen q"
  have bp: "0 < bp" "2 ^ nat (bp - 1) \<le> p" "p < 2 ^ nat bp"
    using bitlen_bounds [OF p] p bitlen_eq_zero_iff [of p] bitlen_nonneg [of p] by (auto simp: bp_def)
  have bq: "0 < bq" "2 ^ nat (bq - 1) \<le> q" "q < 2 ^ nat bq"
    using bitlen_bounds [OF q] q bitlen_eq_zero_iff [of q] bitlen_nonneg [of q] by (auto simp: bq_def)
  have P1: "(2::rat) powi (bp - 1) \<le> of_int p"
  proof -
    have "(of_int (2 ^ nat (bp - 1)) :: rat) \<le> of_int p" using bp(2) by (simp only: of_int_le_iff)
    then show ?thesis using bp(1) by (simp add: power_int_def)
  qed
  have P2: "(of_int p :: rat) < 2 powi bp"
  proof -
    have "(of_int p :: rat) < of_int (2 ^ nat bp)" using bp(3) by (simp only: of_int_less_iff)
    then show ?thesis using bp(1) by (simp add: power_int_def)
  qed
  have Q1: "(2::rat) powi (bq - 1) \<le> of_int q"
  proof -
    have "(of_int (2 ^ nat (bq - 1)) :: rat) \<le> of_int q" using bq(2) by (simp only: of_int_le_iff)
    then show ?thesis using bq(1) by (simp add: power_int_def)
  qed
  have Q2: "(of_int q :: rat) < 2 powi bq"
  proof -
    have "(of_int q :: rat) < of_int (2 ^ nat bq)" using bq(3) by (simp only: of_int_less_iff)
    then show ?thesis using bq(1) by (simp add: power_int_def)
  qed
  have qpos: "(0::rat) < of_int q" using q by simp
  have lo: "(2::rat) powi (bp - bq - 1) < \<bar>x\<bar>"
  proof -
    have "(2::rat) powi (bp - bq - 1) * of_int q < 2 powi (bp - bq - 1) * 2 powi bq"
      using Q2 by (intro mult_strict_left_mono) simp_all
    also have "\<dots> = 2 powi (bp - 1)"
      by (simp add: power_int_add [symmetric])
    also have "\<dots> \<le> of_int p" by (rule P1)
    finally show ?thesis using qpos by (simp add: x pos_less_divide_eq)
  qed
  have hi: "\<bar>x\<bar> < (2::rat) powi (bp - bq + 1)"
  proof -
    have "(of_int p :: rat) < 2 powi bp" by (rule P2)
    also have "\<dots> = 2 powi (bp - bq + 1) * 2 powi (bq - 1)"
      by (simp add: power_int_add [symmetric])
    also have "\<dots> \<le> 2 powi (bp - bq + 1) * of_int q"
      using Q1 by (intro mult_left_mono) simp_all
    finally show ?thesis using qpos by (simp add: x pos_divide_less_eq)
  qed
  have b: "binade x = (if 2 powi (bp - bq) \<le> \<bar>x\<bar> then bp - bq else bp - bq - 1)"
    by (simp add: binade_def pq bp_def bq_def Let_def)
  show "2 powi binade x \<le> \<bar>x\<bar>" using lo by (simp add: b)
  show "\<bar>x\<bar> < 2 powi (binade x + 1)" using hi by (auto simp: b)
qed

lemma binade_less: "x \<noteq> 0 \<Longrightarrow> \<bar>x\<bar> < 2 powi k \<Longrightarrow> binade x < k"
proof (rule ccontr)
  assume x: "x \<noteq> 0" and lt: "\<bar>x\<bar> < 2 powi k" and "\<not> binade x < k"
  then have "k \<le> binade x" by simp
  then have "(2::rat) powi k \<le> 2 powi binade x" by (rule power_int_increasing) simp
  also have "\<dots> \<le> \<bar>x\<bar>" using x by (rule binade_bounds)
  finally show False using lt by simp
qed

lemma binade_greater: "x \<noteq> 0 \<Longrightarrow> 2 powi k \<le> \<bar>x\<bar> \<Longrightarrow> k \<le> binade x"
proof (rule ccontr)
  assume x: "x \<noteq> 0" and le: "2 powi k \<le> \<bar>x\<bar>" and "\<not> k \<le> binade x"
  then have "binade x + 1 \<le> k" by simp
  then have "(2::rat) powi (binade x + 1) \<le> 2 powi k" by (rule power_int_increasing) simp
  moreover have "\<bar>x\<bar> < 2 powi (binade x + 1)" using x by (rule binade_bounds)
  ultimately show False using le by simp
qed

lemma round_binary64_error:
  assumes "x \<noteq> 0"
  shows "\<bar>round_binary64 x - x\<bar> \<le> 2 powi (max (binade x) (- 1022) - 52) / 2"
proof -
  define u :: rat where "u = 2 powi (max (binade x) (- 1022) - 52)"
  have u: "0 < u" by (simp add: u_def)
  have r: "round_binary64 x = of_int (round_half_even (x / u)) * u"
    using assms by (simp add: round_binary64_def u_def Let_def)
  have "\<bar>of_int (round_half_even (x / u)) - x / u\<bar> \<le> 1 / 2" by (rule rhe_error)
  then have "\<bar>of_int (round_half_even (x / u)) - x / u\<bar> * u \<le> 1 / 2 * u"
    using u by (intro mult_right_mono) simp_all
  moreover have "\<bar>of_int (round_half_even (x / u)) - x / u\<bar> * u
      = \<bar>of_int (round_half_even (x / u)) * u - x\<bar>"
  proof -
    have "\<bar>of_int (round_half_even (x / u)) - x / u\<bar> * u
        = \<bar>(of_int (round_half_even (x / u)) - x / u) * u\<bar>"
      using u by (simp add: abs_mult)
    also have "(of_int (round_half_even (x / u)) - x / u) * u
        = of_int (round_half_even (x / u)) * u - x"
      using u by (simp add: algebra_simps)
    finally show ?thesis .
  qed
  ultimately have "\<bar>of_int (round_half_even (x / u)) * u - x\<bar> \<le> 1 / 2 * u" by simp
  then have "\<bar>round_binary64 x - x\<bar> \<le> u / 2" by (simp add: r)
  then show ?thesis by (simp only: u_def)
qed

lemma round_binary64_relative:
  assumes "2 powi (- 1022) \<le> \<bar>x\<bar>"
  shows "\<bar>round_binary64 x - x\<bar> \<le> \<bar>x\<bar> / 2 ^ 53"
proof -
  have "(0::rat) < 2 powi (- 1022)" by simp
  with assms have x: "x \<noteq> 0" by auto
  have b: "- 1022 \<le> binade x" using x assms by (rule binade_greater)
  have "\<bar>round_binary64 x - x\<bar> \<le> 2 powi (max (binade x) (- 1022) - 52) / 2"
    using x by (rule round_binary64_error)
  also have "max (binade x) (- 1022) = binade x" using b by simp
  also have "(2::rat) powi (binade x - 52) / 2 = 2 powi binade x / 2 ^ 53"
    by (simp add: power_int_diff)
  also have "\<dots> \<le> \<bar>x\<bar> / 2 ^ 53"
    using binade_bounds(1) [OF x] by (simp add: divide_right_mono)
  finally show ?thesis .
qed

lemma round_binary64_nonneg: "0 \<le> x \<Longrightarrow> 0 \<le> round_binary64 x"
  by (simp add: round_binary64_def Let_def rhe_nonneg)

lemma round_binary64_nonpos: "x \<le> 0 \<Longrightarrow> round_binary64 x \<le> 0"
  by (simp add: round_binary64_def Let_def mult_le_0_iff rhe_nonpos divide_le_0_iff)

lemma round_binary64_of_int:
  assumes "\<bar>n\<bar> \<le> 2 ^ 53"
  shows "round_binary64 (of_int n) = of_int n"
proof (cases "n = 0")
  case True
  then show ?thesis by (simp add: round_binary64_def)
next
  case False
  define x :: rat where "x = of_int n"
  have x: "x \<noteq> 0" using False by (simp add: x_def)
  have ax: "\<bar>x\<bar> = of_int \<bar>n\<bar>" by (simp add: x_def)
  have "1 \<le> \<bar>n\<bar>" using False by simp
  then have "(1::rat) \<le> of_int \<bar>n\<bar>" by (simp only: of_int_1_le_iff)
  then have "(2::rat) powi 0 \<le> \<bar>x\<bar>" by (simp add: ax)
  with x have b0: "0 \<le> binade x" by (rule binade_greater)
  have "(of_int \<bar>n\<bar> :: rat) \<le> of_int (2 ^ 53)" using assms by (simp only: of_int_le_iff)
  then have "\<bar>x\<bar> < 2 powi 54" by (simp add: ax)
  with x have b1: "binade x < 54" by (rule binade_less)
  define u :: rat where "u = 2 powi (binade x - 52)"
  have u: "0 < u" by (simp add: u_def)
  have r: "round_binary64 x = of_int (round_half_even (x / u)) * u"
    using x b0 by (simp add: round_binary64_def u_def Let_def max_def)
  have "\<exists>k. x / u = of_int k"
  proof (cases "binade x \<le> 52")
    case True
    then have "u = 1 / 2 ^ nat (52 - binade x)"
      by (simp add: u_def power_int_def field_simps)
    then have "x / u = of_int (n * 2 ^ nat (52 - binade x))" by (simp add: x_def)
    then show ?thesis ..
  next
    case False
    with b1 have b: "binade x = 53" by simp
    have "(2::rat) powi 53 \<le> \<bar>x\<bar>" using binade_bounds(1) [OF x] by (simp add: b)
    then have "(of_int (2 ^ 53) :: rat) \<le> of_int \<bar>n\<bar>" by (simp add: ax)
    then have "2 ^ 53 \<le> \<bar>n\<bar>" by (simp only: of_int_le_iff)
    with assms have "\<bar>n\<bar> = 2 ^ 53" by simp
    then have "n = 2 ^ 53 \<or> n = - (2 ^ 53)" by linarith
    moreover have "u = 2" by (simp add: u_def b)
    ultimately have "x / u = of_int (n div 2)" by (auto simp: x_def)
    then show ?thesis ..
  qed
  then obtain k where k: "x / u = of_int k" ..
  have "round_binary64 x = x / u * u" by (simp add: r k rhe_of_int)
  also have "\<dots> = x" using u by simp
  finally show ?thesis by (simp add: x_def)
qed

lemma no_float_overflow:
  assumes "\<bar>x\<bar> \<le> 2 ^ 64"
  shows "\<not> float_overflow (round_binary64 x)"
proof (cases "x = 0")
  case True
  then show ?thesis by (simp add: round_binary64_def float_overflow_def)
next
  case False
  have "(2::rat) ^ 64 < 2 powi 65" by simp
  with assms have "\<bar>x\<bar> < 2 powi 65" by linarith
  with False have b: "binade x < 65" by (rule binade_less)
  have "\<bar>round_binary64 x - x\<bar> \<le> 2 powi (max (binade x) (- 1022) - 52) / 2"
    using False by (rule round_binary64_error)
  also have "\<dots> \<le> 2 powi 12 / 2"
    using b by (intro divide_right_mono power_int_increasing) simp_all
  finally have "\<bar>round_binary64 x\<bar> \<le> 2 ^ 64 + 2 powi 12 / 2" using assms by linarith
  also have "\<dots> < 2 powi 1024" by simp
  finally have lt: "\<bar>round_binary64 x\<bar> < 2 powi 1024" .
  show ?thesis
  proof (cases "round_binary64 x = 0")
    case True
    then show ?thesis by (simp add: float_overflow_def)
  next
    case False
    then have "binade (round_binary64 x) < 1024" using lt by (rule binade_less)
    then show ?thesis by (simp add: float_overflow_def)
  qed
qed

lemma to_float_value: "\<bar>x\<bar> \<le> 2 ^ 64 \<Longrightarrow> to_float x = Inr (round_binary64 x)"
  by (simp add: to_float_def Let_def no_float_overflow)

lemma round_binary64_between:
  assumes "1 / 2 ^ 64 \<le> x" and "x \<le> 2 ^ 64"
  shows "x * (1 - 1 / 2 ^ 53) \<le> round_binary64 x" and "round_binary64 x \<le> x * (1 + 1 / 2 ^ 53)"
proof -
  have "(2::rat) powi (- 1022) \<le> 1 / 2 ^ 64" by (simp add: power_int_minus field_simps)
  with assms(1) have "2 powi (- 1022) \<le> \<bar>x\<bar>" by linarith
  then have "\<bar>round_binary64 x - x\<bar> \<le> \<bar>x\<bar> / 2 ^ 53" by (rule round_binary64_relative)
  moreover have "0 \<le> x" using assms(1) by (simp add: order_trans [rotated])
  ultimately have e: "\<bar>round_binary64 x - x\<bar> \<le> x / 2 ^ 53" by simp
  have d: "x * (1 - 1 / 2 ^ 53) = x - x / 2 ^ 53" "x * (1 + 1 / 2 ^ 53) = x + x / 2 ^ 53"
    by (simp_all add: algebra_simps)
  show "x * (1 - 1 / 2 ^ 53) \<le> round_binary64 x" using e unfolding d by linarith
  show "round_binary64 x \<le> x * (1 + 1 / 2 ^ 53)" using e unfolding d by linarith
qed

lemma pil_dim_rat:
  assumes "pil_dim n"
  shows "(1::rat) \<le> of_int n" and "(of_int n :: rat) < 2 ^ 31"
proof -
  have "1 \<le> n" "n < 2 ^ 31" using assms by (simp_all add: pil_dim_def)
  then have "(of_int 1 :: rat) \<le> of_int n" "(of_int n :: rat) < of_int (2 ^ 31)"
    by (simp_all only: of_int_le_iff of_int_less_iff)
  then show "(1::rat) \<le> of_int n" and "(of_int n :: rat) < 2 ^ 31" by simp_all
qed

lemma ratio_bounds:
  assumes "pil_dim t" and "pil_dim n"
  shows "1 / 2 ^ 31 \<le> (of_int t :: rat) / of_int n" and "(of_int t :: rat) / of_int n \<le> 2 ^ 31"
proof -
  note t = pil_dim_rat [OF assms(1)] and n = pil_dim_rat [OF assms(2)]
  have npos: "(0::rat) < of_int n" using n(1) by linarith
  have "(of_int n :: rat) \<le> 2 ^ 31 * of_int t"
  proof -
    have "(of_int n :: rat) \<le> 2 ^ 31 * 1" using n(2) by simp
    also have "\<dots> \<le> 2 ^ 31 * of_int t" using t(1) by (intro mult_left_mono) simp_all
    finally show ?thesis .
  qed
  then show "1 / 2 ^ 31 \<le> (of_int t :: rat) / of_int n"
    using npos by (simp add: pos_le_divide_eq field_simps)
  have "(of_int t :: rat) \<le> 2 ^ 31 * 1" using t(2) by simp
  also have "\<dots> \<le> 2 ^ 31 * of_int n" using n(1) by (intro mult_left_mono) simp_all
  finally show "(of_int t :: rat) / of_int n \<le> 2 ^ 31"
    using npos by (simp add: pos_divide_le_eq)
qed

lemma int_truediv_value:
  assumes "pil_dim t" and "pil_dim n"
  shows "int_truediv t n = Inr (round_binary64 (of_int t / of_int n))"
proof -
  note r = ratio_bounds [OF assms]
  have "0 < n" using assms(2) by (simp add: pil_dim_def)
  moreover have "\<bar>(of_int t :: rat) / of_int n\<bar> \<le> 2 ^ 64"
  proof -
    have "(0::rat) \<le> of_int t / of_int n" by (rule order_trans [OF _ r(1)]) simp
    moreover have "(2::rat) ^ 31 \<le> 2 ^ 64" by simp
    ultimately show ?thesis using r(2) by linarith
  qed
  ultimately show ?thesis by (simp add: int_truediv_def to_float_value)
qed

lemma float_ratio_bounds:
  assumes "pil_dim t" and "pil_dim n"
  shows "1 / 2 ^ 32 \<le> round_binary64 (of_int t / of_int n)"
    and "round_binary64 (of_int t / of_int n) \<le> 2 ^ 32"
proof -
  define x :: rat where "x = of_int t / of_int n"
  note r = ratio_bounds [OF assms, folded x_def]
  have lo: "1 / 2 ^ 64 \<le> x" using r(1) by (simp add: order_trans [rotated])
  have hi: "x \<le> 2 ^ 64" using r(2) by (simp add: order_trans)
  note b = round_binary64_between [OF lo hi]
  have "1 / 2 ^ 32 \<le> 1 / 2 ^ 31 * (1 - 1 / 2 ^ 53 :: rat)" by simp
  also have "\<dots> \<le> x * (1 - 1 / 2 ^ 53)" using r(1) by (intro mult_right_mono) simp_all
  also have "\<dots> \<le> round_binary64 x" by (rule b(1))
  finally show "1 / 2 ^ 32 \<le> round_binary64 (of_int t / of_int n)" by (simp add: x_def)
  have "round_binary64 x \<le> x * (1 + 1 / 2 ^ 53)" by (rule b(2))
  also have "\<dots> \<le> 2 ^ 31 * (1 + 1 / 2 ^ 53)" using r(2) by (intro mult_right_mono) simp_all
  also have "\<dots> \<le> 2 ^ 32" by simp
  finally show "round_binary64 (of_int t / of_int n) \<le> 2 ^ 32" by (simp add: x_def)
qed

lemma int_times_float_value:
  assumes "pil_dim n" and "\<bar>f\<bar> \<le> 2 ^ 32"
  shows "int_times_float n f = Inr (round_binary64 (of_int n * f))"
proof -
  note n = pil_dim_rat [OF assms(1)]
  have "0 < n" "n < 2 ^ 31" using assms(1) by (simp_all add: pil_dim_def)
  then have "\<bar>n\<bar> \<le> 2 ^ 53" by simp
  then have c: "round_binary64 (of_int n) = of_int n" by (rule round_binary64_of_int)
  have "\<bar>(of_int n :: rat)\<bar> \<le> 2 ^ 64" using n by simp
  then have i: "int_to_float n = Inr (of_int n)" by (simp add: int_to_float_def to_float_value c)
  have "\<bar>of_int n * f\<bar> = of_int n * \<bar>f\<bar>" using n(1) by (simp add: abs_mult)
  also have "\<dots> \<le> 2 ^ 31 * 2 ^ 32"
    using n assms(2) by (intro mult_mono) simp_all
  also have "\<dots> \<le> (2::rat) ^ 64" by simp
  finally have "\<bar>of_int n * f\<bar> \<le> 2 ^ 64" .
  then show ?thesis by (simp add: int_times_float_def i bind_err_def float_mul_def to_float_value)
qed

lemma scaled_size_value:
  assumes "pil_dim (width img)" and "pil_dim (height img)" and "\<bar>scale\<bar> \<le> 2 ^ 32"
  shows "scaled_size img scale =
    Inr (py_round (round_binary64 (of_int (width img) * scale)),
         py_round (round_binary64 (of_int (height img) * scale)))"
  using assms by (simp add: scaled_size_def int_times_float_value bind_err_def)

lemma cover_scale_value:
  assumes "pil_dim (width img)" and "pil_dim (height img)" and "pil_dim tw" and "pil_dim th"
  shows "cover_scale img tw th =
    Inr (max (round_binary64 (of_int tw / of_int (width img)))
             (round_binary64 (of_int th / of_int (height img))))"
  using assms by (simp add: cover_scale_def int_truediv_value bind_err_def)

lemma contain_scale_value:
  assumes "pil_dim (width img)" and "pil_dim (height img)" and "pil_dim tw" and "pil_dim th"
  shows "contain_scale img tw th =
    Inr (min (round_binary64 (of_int tw / of_int (width img)))
             (round_binary64 (of_int th / of_int (height img))))"
  using assms by (simp add: contain_scale_def int_truediv_value bind_err_def)

lemma scaled_ge_target:
  assumes n: "pil_dim n" and t: "pil_dim t"
    and s1: "round_binary64 (of_int t / of_int n) \<le> s" and s2: "s \<le> 2 ^ 32"
  shows "t \<le> py_round (round_binary64 (of_int n * s))"
proof -
  define N :: rat where "N = of_int n"
  define T :: rat where "T = of_int t"
  define c :: rat where "c = 1 - 1 / 2 ^ 53"
  note nb = pil_dim_rat [OF n, folded N_def] and tb = pil_dim_rat [OF t, folded T_def]
  note r = ratio_bounds [OF t n, folded N_def T_def]
  have Npos: "0 < N" using nb(1) by linarith
  have c: "0 \<le> c" "c \<le> 1" by (simp_all add: c_def)
  have rlo: "1 / 2 ^ 64 \<le> T / N" by (rule order_trans [OF _ r(1)]) simp
  have rhi: "T / N \<le> 2 ^ 64" by (rule order_trans [OF r(2)]) simp
  have "T / N * c \<le> round_binary64 (T / N)"
    unfolding c_def by (rule round_binary64_between(1) [OF rlo rhi])
  then have sc: "T / N * c \<le> s" using s1 by (simp add: N_def T_def)
  have "0 \<le> T / N" by (rule order_trans [OF _ r(1)]) simp
  then have "0 \<le> T / N * c" using c(1) by (rule mult_nonneg_nonneg)
  then have spos: "0 \<le> s" using sc by linarith
  have "N * (T / N * c) \<le> N * s" using sc Npos by (intro mult_left_mono) simp_all
  then have ns: "T * c \<le> N * s" using Npos by simp
  have "1 / 2 ^ 64 \<le> 1 * c" by (simp add: c_def)
  also have "\<dots> \<le> T * c" using tb(1) c(1) by (intro mult_right_mono)
  finally have lo: "1 / 2 ^ 64 \<le> N * s" using ns by linarith
  have "N * s \<le> 2 ^ 31 * 2 ^ 32" using nb s2 spos by (intro mult_mono) simp_all
  then have hi: "N * s \<le> 2 ^ 64" by simp
  have "T * c * c \<le> N * s * c" using ns c(1) by (intro mult_right_mono)
  also have "\<dots> \<le> round_binary64 (N * s)"
    unfolding c_def by (rule round_binary64_between(1) [OF lo hi])
  finally have R: "T * c * c \<le> round_binary64 (N * s)" .
  have "T - T * c * c = T * (1 - c * c)" by (simp add: algebra_simps)
  also have "\<dots> \<le> 2 ^ 31 * (1 - c * c)"
    using tb(2) by (intro mult_right_mono) (simp_all add: c_def)
  also have "\<dots> < 1 / 2" by (simp add: c_def)
  finally have "T - 1 / 2 < T * c * c" by linarith
  then have "of_int t - 1 / 2 < round_binary64 (of_int n * s)"
    using R by (simp add: N_def T_def)
  then show ?thesis unfolding py_round_def by (rule rhe_lower)
qed

lemma scaled_le_target:
  assumes n: "pil_dim n" and t: "pil_dim t"
    and s1: "1 / 2 ^ 32 \<le> s" and s2: "s \<le> round_binary64 (of_int t / of_int n)"
  shows "py_round (round_binary64 (of_int n * s)) \<le> t"
    and "of_int n * s \<le> 2 ^ 32"
proof -
  define N :: rat where "N = of_int n"
  define T :: rat where "T = of_int t"
  define c :: rat where "c = 1 + 1 / 2 ^ 53"
  note nb = pil_dim_rat [OF n, folded N_def] and tb = pil_dim_rat [OF t, folded T_def]
  note r = ratio_bounds [OF t n, folded N_def T_def]
  have Npos: "0 < N" using nb(1) by linarith
  have Tpos: "0 < T" using tb(1) by linarith
  have spos: "0 < s" by (rule less_le_trans [OF _ s1]) simp
  have c: "0 \<le> c" "1 \<le> c" by (simp_all add: c_def)
  have rlo: "1 / 2 ^ 64 \<le> T / N" by (rule order_trans [OF _ r(1)]) simp
  have rhi: "T / N \<le> 2 ^ 64" by (rule order_trans [OF r(2)]) simp
  have "round_binary64 (T / N) \<le> T / N * c"
    unfolding c_def by (rule round_binary64_between(2) [OF rlo rhi])
  then have "s \<le> T / N * c" using s2 by (simp add: N_def T_def)
  then have "N * s \<le> N * (T / N * c)" using Npos by (intro mult_left_mono) simp_all
  then have ns: "N * s \<le> T * c" using Npos by simp
  have "1 / 2 ^ 64 \<le> 1 * (1 / 2 ^ 32 :: rat)" by simp
  also have "\<dots> \<le> N * s" using nb(1) s1 by (intro mult_mono) simp_all
  finally have lo: "1 / 2 ^ 64 \<le> N * s" .
  have "T * c \<le> 2 ^ 31 * c" using tb(2) c(1) by (intro mult_right_mono) simp_all
  also have "\<dots> \<le> 2 ^ 32" by (simp add: c_def)
  finally have Tc: "T * c \<le> 2 ^ 32" .
  then have ns32: "N * s \<le> 2 ^ 32" using ns by linarith
  then have hi: "N * s \<le> 2 ^ 64" by (rule order_trans) simp
  have "round_binary64 (N * s) \<le> N * s * c"
    unfolding c_def by (rule round_binary64_between(2) [OF lo hi])
  also have "\<dots> \<le> T * c * c" using ns c(1) by (intro mult_right_mono)
  finally have R: "round_binary64 (N * s) \<le> T * c * c" .
  have "T * c * c - T = T * (c * c - 1)" by (simp add: algebra_simps)
  also have "\<dots> \<le> 2 ^ 31 * (c * c - 1)"
    using tb(2) by (intro mult_right_mono) (simp_all add: c_def)
  also have "\<dots> < 1 / 2" by (simp add: c_def)
  finally have "T * c * c < T + 1 / 2" by linarith
  then have "round_binary64 (of_int n * s) < of_int t + 1 / 2"
    using R by (simp add: N_def T_def)
  then show "py_round (round_binary64 (of_int n * s)) \<le> t"
    unfolding py_round_def by (rule rhe_upper)
  show "of_int n * s \<le> 2 ^ 32" using ns32 by (simp add: N_def)
qed

lemma scaled_near:
  assumes n: "pil_dim n" and s1: "1 / 2 ^ 32 \<le> s" and s2: "of_int n * s \<le> 2 ^ 32"
  shows "\<bar>of_int (py_round (round_binary64 (of_int n * s))) - of_int n * s\<bar> \<le> 1 / 2 + 1 / 2 ^ 21"
proof -
  define x :: rat where "x = of_int n * s"
  note nb = pil_dim_rat [OF n]
  have "1 / 2 ^ 64 \<le> 1 * (1 / 2 ^ 32 :: rat)" by simp
  also have "\<dots> \<le> of_int n * s" using nb(1) s1 by (intro mult_mono) simp_all
  finally have lo: "1 / 2 ^ 64 \<le> x" by (simp add: x_def)
  have hi32: "x \<le> 2 ^ 32" using s2 by (simp add: x_def)
  then have hi: "x \<le> 2 ^ 64" by (rule order_trans) simp
  note b = round_binary64_between [OF lo hi]
  have d: "x * (1 - 1 / 2 ^ 53) = x - x / 2 ^ 53" "x * (1 + 1 / 2 ^ 53) = x + x / 2 ^ 53"
    by (simp_all add: algebra_simps)
  have "x / 2 ^ 53 \<le> 2 ^ 32 / 2 ^ 53" using hi32 by (intro divide_right_mono) simp_all
  then have "x / 2 ^ 53 \<le> 1 / 2 ^ 21" by simp
  then have "\<bar>round_binary64 x - x\<bar> \<le> 1 / 2 ^ 21" using b unfolding d by linarith
  moreover have "\<bar>of_int (round_half_even (round_binary64 x)) - round_binary64 x\<bar> \<le> 1 / 2"
    by (rule rhe_error)
  ultimately have "\<bar>of_int (round_half_even (round_binary64 x)) - x\<bar> \<le> 1 / 2 + 1 / 2 ^ 21"
    by linarith
  then show ?thesis by (simp add: x_def py_round_def)
qed

lemma cover_scaled:
  assumes "pil_dim (width img)" and "pil_dim (height img)" and "pil_dim tw" and "pil_dim th"
  shows "\<exists>scale new_w new_h.
      cover_scale img tw th = Inr scale
    \<and> scale = max (round_binary64 (of_int tw / of_int (width img)))
                  (round_binary64 (of_int th / of_int (height img)))
    \<and> scaled_size img scale = Inr (new_w, new_h) \<and> tw \<le> new_w \<and> th \<le> new_h"
proof -
  define rw where "rw = round_binary64 (of_int tw / of_int (width img))"
  define rh where "rh = round_binary64 (of_int th / of_int (height img))"
  define scale where "scale = max rw rh"
  note bw = float_ratio_bounds [OF assms(3) assms(1), folded rw_def]
  note bh = float_ratio_bounds [OF assms(4) assms(2), folded rh_def]
  have s: "cover_scale img tw th = Inr scale"
    using assms by (simp add: cover_scale_value scale_def rw_def rh_def)
  have hi: "scale \<le> 2 ^ 32" using bw(2) bh(2) by (simp add: scale_def)
  have "0 \<le> rw" by (rule order_trans [OF _ bw(1)]) simp
  then have "0 \<le> scale" by (simp add: scale_def max_def)
  with hi have "\<bar>scale\<bar> \<le> 2 ^ 32" by simp
  then have z: "scaled_size img scale =
    Inr (py_round (round_binary64 (of_int (width img) * scale)),
         py_round (round_binary64 (of_int (height img) * scale)))"
    using assms(1,2) by (simp add: scaled_size_value)
  have "rw \<le> scale" by (simp add: scale_def)
  then have w: "tw \<le> py_round (round_binary64 (of_int (width img) * scale))"
    unfolding rw_def using hi by (rule scaled_ge_target [OF assms(1) assms(3)])
  have "rh \<le> scale" by (simp add: scale_def)
  then have h: "th \<le> py_round (round_binary64 (of_int (height img) * scale))"
    unfolding rh_def using hi by (rule scaled_ge_target [OF assms(2) assms(4)])
  show ?thesis using s z w h by (auto simp: scale_def rw_def rh_def)
qed

lemma contain_scaled:
  assumes "pil_dim (width img)" and "pil_dim (height img)" and "pil_dim tw" and "pil_dim th"
  shows "\<exists>scale new_w new_h.
      contain_scale img tw th = Inr scale
    \<and> scale = min (round_binary64 (of_int tw / of_int (width img)))
                  (round_binary64 (of_int th / of_int (height img)))
    \<and> scaled_size img scale = Inr (new_w, new_h) \<and> new_w \<le> tw \<and> new_h \<le> th
    \<and> 0 \<le> new_w \<and> 0 \<le> new_h
    \<and> \<bar>of_int new_w - of_int (width img) * scale\<bar> \<le> 1 / 2 + 1 / 2 ^ 21
    \<and> \<bar>of_int new_h - of_int (height img) * scale\<bar> \<le> 1 / 2 + 1 / 2 ^ 21"
proof -
  define rw where "rw = round_binary64 (of_int tw / of_int (width img))"
  define rh where "rh = round_binary64 (of_int th / of_int (height img))"
  define scale where "scale = min rw rh"
  note bw = float_ratio_bounds [OF assms(3) assms(1), folded rw_def]
  note bh = float_ratio_bounds [OF assms(4) assms(2), folded rh_def]
  have s: "contain_scale img tw th = Inr scale"
    using assms by (simp add: contain_scale_value scale_def rw_def rh_def)
  have lo: "1 / 2 ^ 32 \<le> scale" using bw(1) bh(1) by (simp add: scale_def)
  have hi: "scale \<le> 2 ^ 32" using bw(2) by (simp add: scale_def min_def)
  have pos: "0 \<le> scale" by (rule order_trans [OF _ lo]) simp
  with hi have "\<bar>scale\<bar> \<le> 2 ^ 32" by simp
  then have z: "scaled_size img scale =
    Inr (py_round (round_binary64 (of_int (width img) * scale)),
         py_round (round_binary64 (of_int (height img) * scale)))"
    using assms(1,2) by (simp add: scaled_size_value)
  have sw: "scale \<le> round_binary64 (of_int tw / of_int (width img))"
    by (simp add: scale_def rw_def)
  have sh: "scale \<le> round_binary64 (of_int th / of_int (height img))"
    by (simp add: scale_def rh_def)
  note w = scaled_le_target [OF assms(1) assms(3) lo sw]
  note h = scaled_le_target [OF assms(2) assms(4) lo sh]
  note nw = scaled_near [OF assms(1) lo w(2)]
  note nh = scaled_near [OF assms(2) lo h(2)]
  have "0 \<le> of_int (width img) * scale" "0 \<le> of_int (height img) * scale"
    using pil_dim_rat(1) [OF assms(1)] pil_dim_rat(1) [OF assms(2)] pos by simp_all
  then have p: "0 \<le> py_round (round_binary64 (of_int (width img) * scale))"
      "0 \<le> py_round (round_binary64 (of_int (height img) * scale))"
    by (simp_all add: py_round_def rhe_nonneg round_binary64_nonneg)
  show ?thesis using s z w(1) h(1) nw nh p by (auto simp: scale_def rw_def rh_def)
qed

lemma half_excess:
  fixes e :: int
  assumes "0 \<le> e"
  shows "0 \<le> e div 2" and "e div 2 \<le> e" and "e - e div 2 = e div 2 + e mod 2"
  using assms by presburger+

lemma product_01: "List.product [0..1] [0..1] = [(0, 0), (0, 1), (1, 0), (1, 1 :: int)]"
  by (simp add: upto.simps)

lemma slice_tiles_value:
  assumes "0 \<le> a4_w_px" and "0 \<le> a4_h_px"
  shows "slice_tiles poster a4_w_px a4_h_px =
    Inr (map (\<lambda>(row, col).
           ((row, col),
            \<lparr>width = a4_w_px, height = a4_h_px,
             px = (\<lambda>x y. if 0 \<le> x + col * a4_w_px \<and> x + col * a4_w_px < width poster
                           \<and> 0 \<le> y + row * a4_h_px \<and> y + row * a4_h_px < height poster
                          then px poster (x + col * a4_w_px) (y + row * a4_h_px)
                          else (0, 0, 0))\<rparr>))
         [(0, 0), (0, 1), (1, 0), (1, 1)])"
  using assms
  by (simp add: slice_tiles_def product_01 crop_def bind_err_def Let_def)





lemma mm_to_inches_a4:
  "mm_to_inches (fst A4_MM) = 4654310638522659 / 562949953421312"
  "mm_to_inches (snd A4_MM) = 6582525045910617 / 562949953421312"
  by code_simp+

lemma int_to_float_value:
  assumes "pil_dim n"
  shows "int_to_float n = Inr (of_int n)"
proof -
  note n = pil_dim_rat [OF assms]
  have "0 < n" "n < 2 ^ 31" using assms by (simp_all add: pil_dim_def)
  then have "\<bar>n\<bar> \<le> 2 ^ 53" by simp
  then have c: "round_binary64 (of_int n) = of_int n" by (rule round_binary64_of_int)
  have "\<bar>(of_int n :: rat)\<bar> \<le> 2 ^ 64" using n by simp
  then show ?thesis by (simp add: int_to_float_def to_float_value c)
qed

lemma float_times_int_value:
  assumes "pil_dim n" and "\<bar>f\<bar> \<le> 2 ^ 32"
  shows "float_times_int f n = Inr (round_binary64 (f * of_int n))"
proof -
  note n = pil_dim_rat [OF assms(1)]
  have "\<bar>f * of_int n\<bar> = \<bar>f\<bar> * of_int n" using n(1) by (simp add: abs_mult)
  also have "\<dots> \<le> 2 ^ 32 * 2 ^ 31"
    using n assms(2) by (intro mult_mono) simp_all
  also have "\<dots> \<le> (2::rat) ^ 64" by simp
  finally have "\<bar>f * of_int n\<bar> \<le> 2 ^ 64" .
  then show ?thesis
    by (simp add: float_times_int_def int_to_float_value [OF assms(1)] bind_err_def float_mul_def
        to_float_value)
qed

lemma a4_pixels_300: "a4_pixels 300 = Inr (2480, 3508)"
  by code_simp


lemma round_binary64_magnitude:
  assumes "\<bar>x\<bar> \<le> 2 ^ 31"
  shows "\<bar>round_binary64 x\<bar> \<le> 2 ^ 32"
proof (cases "x = 0")
  case True
  then show ?thesis by (simp add: round_binary64_def)
next
  case False
  have "(2::rat) ^ 31 < 2 powi 32" by simp
  with assms have "\<bar>x\<bar> < 2 powi 32" by linarith
  with False have b: "binade x < 32" by (rule binade_less)
  have "\<bar>round_binary64 x - x\<bar> \<le> 2 powi (max (binade x) (- 1022) - 52) / 2"
    using False by (rule round_binary64_error)
  also have "\<dots> \<le> 2 powi 0 / 2"
    using b by (intro divide_right_mono power_int_increasing) simp_all
  finally have "\<bar>round_binary64 x\<bar> \<le> 2 ^ 31 + 2 powi 0 / 2" using assms by linarith
  also have "\<dots> \<le> 2 ^ 32" by simp
  finally show ?thesis .
qed

lemma int_truediv_signed:
  assumes "pil_dim n" and "\<bar>t\<bar> < 2 ^ 31"
  shows "\<exists>r. int_truediv t n = Inr r \<and> \<bar>r\<bar> \<le> 2 ^ 32 \<and> (t \<le> 0 \<longrightarrow> r \<le> 0)"
proof -
  note n = pil_dim_rat [OF assms(1)]
  have n0: "n \<noteq> 0" using assms(1) by (simp add: pil_dim_def)
  define x :: rat where "x = of_int t / of_int n"
  have "(of_int \<bar>t\<bar> :: rat) < of_int (2 ^ 31)" using assms(2) by (simp only: of_int_less_iff)
  then have t: "\<bar>of_int t :: rat\<bar> \<le> 2 ^ 31" by simp
  have "\<bar>x\<bar> = \<bar>of_int t\<bar> / of_int n" using n(1) by (simp add: x_def)
  also have "\<dots> \<le> \<bar>of_int t\<bar> / 1" using n(1) by (intro divide_left_mono) simp_all
  finally have x: "\<bar>x\<bar> \<le> 2 ^ 31" using t by simp
  then have "\<bar>x\<bar> \<le> 2 ^ 64" by (rule order_trans) simp
  then have v: "int_truediv t n = Inr (round_binary64 x)"
    using n0 by (simp add: int_truediv_def to_float_value x_def)
  have s: "round_binary64 x \<le> 0" if "t \<le> 0"
  proof -
    have "(of_int t :: rat) \<le> 0" using that by simp
    then have "x \<le> 0" using n(1) by (simp add: x_def divide_le_0_iff)
    then show ?thesis by (rule round_binary64_nonpos)
  qed
  show ?thesis using v round_binary64_magnitude [OF x] s by blast
qed

lemma resize_returned:
  assumes "resize r img (x, y) = Inr s"
  shows "s = \<lparr>width = x, height = y, px = r img x y\<rparr>"
  using assms by (simp add: resize_def split: if_splits)

lemma resize_failed:
  assumes "resize r img (x, y) = Inl e"
  shows "e = OverflowError \<or> e = ValueError Height_And_Width_Must_Be_Positive \<or> e = MemoryError"
  using assms by (auto simp: resize_def split: if_splits)

lemma resize_below_one:
  assumes "0 < width img" and "0 < height img" and "x < 1 \<or> y < 1"
  shows "resize r img (x, y) =
    Inl (if c_int x \<and> c_int y then ValueError Height_And_Width_Must_Be_Positive
         else OverflowError)"
  using assms by (auto simp: resize_def)

lemma resize_within_limits:
  assumes "1 \<le> x" and "x \<le> lanczos_max_size" and "1 \<le> y" and "y \<le> lanczos_max_size"
  shows "resize r img (x, y) = Inr \<lparr>width = x, height = y, px = r img x y\<rparr>"
  using assms by (auto simp: resize_def c_int_def lanczos_max_size_def)

lemma cover_composition:
  assumes "cover_scale img tw th = Inr s" and "scaled_size img s = Inr (nw, nh)"
  shows "resize_to_poster lanczos img (tw, th) ''cover'' =
    bind_err (resize lanczos img (nw, nh)) (\<lambda>img_resized.
      crop img_resized ((nw - tw) div 2, (nh - th) div 2,
                        (nw - tw) div 2 + tw, (nh - th) div 2 + th))"
  using assms by (simp add: resize_to_poster_def bind_err_def Let_def)

lemma contain_composition:
  assumes "contain_scale img tw th = Inr s" and "scaled_size img s = Inr (nw, nh)"
  shows "resize_to_poster lanczos img (tw, th) ''contain'' =
    bind_err (resize lanczos img (nw, nh)) (\<lambda>img_resized.
    bind_err (new_image (tw, th) (255, 255, 255)) (\<lambda>bg.
      Inr (paste bg img_resized ((tw - nw) div 2, (th - nh) div 2))))"
  using assms by (simp add: resize_to_poster_def bind_err_def Let_def)

lemma crop_window:
  assumes "crop s (l, t, l + tw, t + th) = Inr poster"
    and "0 \<le> l" and "l + tw \<le> width s" and "0 \<le> t" and "t + th \<le> height s"
  shows "width poster = tw" and "height poster = th"
    and "\<forall>x y. inside tw th x y \<longrightarrow>
           inside (width s) (height s) (x + l) (y + t) \<and> px poster x y = px s (x + l) (y + t)"
  using assms by (auto simp: crop_def inside_def split: if_splits)

lemma crop_returns:
  assumes "0 \<le> tw" and "0 \<le> th"
  shows "\<exists>poster. crop s (l, t, l + tw, t + th) = Inr poster"
  using assms by (simp add: crop_def)

lemma paste_on_white:
  assumes "new_image (tw, th) (255, 255, 255) = Inr bg"
  shows "width (paste bg s (l, t)) = tw" and "height (paste bg s (l, t)) = th"
    and "\<forall>x y. px (paste bg s (l, t)) x y =
           (if inside (width s) (height s) (x - l) (y - t) then px s (x - l) (y - t)
            else (255, 255, 255))"
  using assms by (auto simp: new_image_def paste_def inside_def split: if_splits)

text \<open>
  The cover branch: the scaled size is at least the target, the crop box lies inside the
  scaled image, and the fitter is the library's resize followed by its crop.
\<close>

lemma cover_fitted:
  assumes "pil_dim (width img)" and "pil_dim (height img)" and "pil_dim tw" and "pil_dim th"
  shows "\<exists>scale new_w new_h.
      cover_scale img tw th = Inr scale
    \<and> scale = max (round_binary64 (of_int tw / of_int (width img)))
                  (round_binary64 (of_int th / of_int (height img)))
    \<and> scaled_size img scale = Inr (new_w, new_h)
    \<and> tw \<le> new_w \<and> th \<le> new_h
    \<and> 0 \<le> (new_w - tw) div 2 \<and> (new_w - tw) div 2 + tw \<le> new_w
    \<and> 0 \<le> (new_h - th) div 2 \<and> (new_h - th) div 2 + th \<le> new_h
    \<and> new_w - ((new_w - tw) div 2 + tw) = (new_w - tw) div 2 + (new_w - tw) mod 2
    \<and> new_h - ((new_h - th) div 2 + th) = (new_h - th) div 2 + (new_h - th) mod 2
    \<and> (\<forall>e. resize lanczos img (new_w, new_h) = Inl e \<longrightarrow>
           resize_to_poster lanczos img (tw, th) ''cover'' = Inl e)
    \<and> (\<forall>scaled. resize lanczos img (new_w, new_h) = Inr scaled \<longrightarrow>
           width scaled = new_w \<and> height scaled = new_h \<and> px scaled = lanczos img new_w new_h
         \<and> resize_to_poster lanczos img (tw, th) ''cover'' =
             crop scaled ((new_w - tw) div 2, (new_h - th) div 2,
                          (new_w - tw) div 2 + tw, (new_h - th) div 2 + th))"
proof -
  from cover_scaled [OF assms] obtain scale new_w new_h where
    s: "cover_scale img tw th = Inr scale"
    and m: "scale = max (round_binary64 (of_int tw / of_int (width img)))
                        (round_binary64 (of_int th / of_int (height img)))"
    and z: "scaled_size img scale = Inr (new_w, new_h)"
    and w: "tw \<le> new_w" and h: "th \<le> new_h"
    by blast
  note c = cover_composition [OF s z, of lanczos]
  have ew: "0 \<le> new_w - tw" and eh: "0 \<le> new_h - th" using w h by simp_all
  have bw: "0 \<le> (new_w - tw) div 2" "(new_w - tw) div 2 + tw \<le> new_w"
    using half_excess(1,2) [OF ew] by simp_all
  have bh: "0 \<le> (new_h - th) div 2" "(new_h - th) div 2 + th \<le> new_h"
    using half_excess(1,2) [OF eh] by simp_all
  have cw: "new_w - ((new_w - tw) div 2 + tw) = (new_w - tw) div 2 + (new_w - tw) mod 2"
    using half_excess(3) [OF ew] by simp
  have ch: "new_h - ((new_h - th) div 2 + th) = (new_h - th) div 2 + (new_h - th) mod 2"
    using half_excess(3) [OF eh] by simp
  have f: "\<forall>e. resize lanczos img (new_w, new_h) = Inl e \<longrightarrow>
           resize_to_poster lanczos img (tw, th) ''cover'' = Inl e"
    by (simp add: c bind_err_def)
  have r: "\<forall>scaled. resize lanczos img (new_w, new_h) = Inr scaled \<longrightarrow>
           width scaled = new_w \<and> height scaled = new_h \<and> px scaled = lanczos img new_w new_h
         \<and> resize_to_poster lanczos img (tw, th) ''cover'' =
             crop scaled ((new_w - tw) div 2, (new_h - th) div 2,
                          (new_w - tw) div 2 + tw, (new_h - th) div 2 + th)"
  proof (intro allI impI)
    fix scaled
    assume a: "resize lanczos img (new_w, new_h) = Inr scaled"
    note e = resize_returned [OF a]
    show "width scaled = new_w \<and> height scaled = new_h \<and> px scaled = lanczos img new_w new_h
         \<and> resize_to_poster lanczos img (tw, th) ''cover'' =
             crop scaled ((new_w - tw) div 2, (new_h - th) div 2,
                          (new_w - tw) div 2 + tw, (new_h - th) div 2 + th)"
      by (simp add: c a bind_err_def) (simp add: e)
  qed
  show ?thesis
    by (intro exI conjI) (rule s m z w h bw bh cw ch f r)+
qed

text \<open>
  The contain branch: the scaled size lies within the target, each side within half a
  pixel (and the float's error) of the side times the scale; the fitter is the library's
  resize, then a white image of the target's size with the scaled image pasted at the
  floor of half the margins.
\<close>

lemma contain_letterbox:
  assumes "pil_dim (width img)" and "pil_dim (height img)" and "pil_dim tw" and "pil_dim th"
  shows "\<exists>scale new_w new_h.
      contain_scale img tw th = Inr scale
    \<and> scale = min (round_binary64 (of_int tw / of_int (width img)))
                  (round_binary64 (of_int th / of_int (height img)))
    \<and> scaled_size img scale = Inr (new_w, new_h)
    \<and> 0 \<le> new_w \<and> new_w \<le> tw \<and> 0 \<le> new_h \<and> new_h \<le> th
    \<and> \<bar>of_int new_w - of_int (width img) * scale\<bar> \<le> 1 / 2 + 1 / 2 ^ 21
    \<and> \<bar>of_int new_h - of_int (height img) * scale\<bar> \<le> 1 / 2 + 1 / 2 ^ 21
    \<and> 0 \<le> (tw - new_w) div 2 \<and> (tw - new_w) div 2 + new_w \<le> tw
    \<and> 0 \<le> (th - new_h) div 2 \<and> (th - new_h) div 2 + new_h \<le> th
    \<and> tw - ((tw - new_w) div 2 + new_w) = (tw - new_w) div 2 + (tw - new_w) mod 2
    \<and> th - ((th - new_h) div 2 + new_h) = (th - new_h) div 2 + (th - new_h) mod 2
    \<and> (\<forall>e. resize lanczos img (new_w, new_h) = Inl e \<longrightarrow>
           resize_to_poster lanczos img (tw, th) ''contain'' = Inl e)
    \<and> (\<forall>scaled bg. resize lanczos img (new_w, new_h) = Inr scaled
                    \<and> new_image (tw, th) (255, 255, 255) = Inr bg \<longrightarrow>
           width scaled = new_w \<and> height scaled = new_h \<and> px scaled = lanczos img new_w new_h
         \<and> (\<exists>poster. resize_to_poster lanczos img (tw, th) ''contain'' = Inr poster
              \<and> width poster = tw \<and> height poster = th
              \<and> (\<forall>x y. px poster x y =
                    (if inside new_w new_h (x - (tw - new_w) div 2) (y - (th - new_h) div 2)
                     then px scaled (x - (tw - new_w) div 2) (y - (th - new_h) div 2)
                     else (255, 255, 255)))))"
proof -
  from contain_scaled [OF assms] obtain scale new_w new_h where
    s: "contain_scale img tw th = Inr scale"
    and m: "scale = min (round_binary64 (of_int tw / of_int (width img)))
                        (round_binary64 (of_int th / of_int (height img)))"
    and z: "scaled_size img scale = Inr (new_w, new_h)"
    and w: "new_w \<le> tw" and h: "new_h \<le> th"
    and pw: "0 \<le> new_w" and ph: "0 \<le> new_h"
    and aw: "\<bar>of_int new_w - of_int (width img) * scale\<bar> \<le> 1 / 2 + 1 / 2 ^ 21"
    and ah: "\<bar>of_int new_h - of_int (height img) * scale\<bar> \<le> 1 / 2 + 1 / 2 ^ 21"
    by blast
  note c = contain_composition [OF s z, of lanczos]
  have ew: "0 \<le> tw - new_w" and eh: "0 \<le> th - new_h" using w h by simp_all
  have bw: "0 \<le> (tw - new_w) div 2" "(tw - new_w) div 2 + new_w \<le> tw"
    using half_excess(1,2) [OF ew] by simp_all
  have bh: "0 \<le> (th - new_h) div 2" "(th - new_h) div 2 + new_h \<le> th"
    using half_excess(1,2) [OF eh] by simp_all
  have cw: "tw - ((tw - new_w) div 2 + new_w) = (tw - new_w) div 2 + (tw - new_w) mod 2"
    using half_excess(3) [OF ew] by simp
  have ch: "th - ((th - new_h) div 2 + new_h) = (th - new_h) div 2 + (th - new_h) mod 2"
    using half_excess(3) [OF eh] by simp
  have f: "\<forall>e. resize lanczos img (new_w, new_h) = Inl e \<longrightarrow>
           resize_to_poster lanczos img (tw, th) ''contain'' = Inl e"
    by (simp add: c bind_err_def)
  have r: "\<forall>scaled bg. resize lanczos img (new_w, new_h) = Inr scaled
                    \<and> new_image (tw, th) (255, 255, 255) = Inr bg \<longrightarrow>
           width scaled = new_w \<and> height scaled = new_h \<and> px scaled = lanczos img new_w new_h
         \<and> (\<exists>poster. resize_to_poster lanczos img (tw, th) ''contain'' = Inr poster
              \<and> width poster = tw \<and> height poster = th
              \<and> (\<forall>x y. px poster x y =
                    (if inside new_w new_h (x - (tw - new_w) div 2) (y - (th - new_h) div 2)
                     then px scaled (x - (tw - new_w) div 2) (y - (th - new_h) div 2)
                     else (255, 255, 255))))"
  proof (intro allI impI, elim conjE)
    fix scaled bg
    assume a: "resize lanczos img (new_w, new_h) = Inr scaled"
      and b: "new_image (tw, th) (255, 255, 255) = Inr bg"
    note e = resize_returned [OF a]
    have d: "width scaled = new_w" "height scaled = new_h" "px scaled = lanczos img new_w new_h"
      by (simp_all add: e)
    note p = paste_on_white [OF b, of scaled "(tw - new_w) div 2" "(th - new_h) div 2",
        unfolded d(1,2)]
    have q: "resize_to_poster lanczos img (tw, th) ''contain'' =
        Inr (paste bg scaled ((tw - new_w) div 2, (th - new_h) div 2))"
      by (simp add: c a b bind_err_def)
    show "width scaled = new_w \<and> height scaled = new_h \<and> px scaled = lanczos img new_w new_h
         \<and> (\<exists>poster. resize_to_poster lanczos img (tw, th) ''contain'' = Inr poster
              \<and> width poster = tw \<and> height poster = th
              \<and> (\<forall>x y. px poster x y =
                    (if inside new_w new_h (x - (tw - new_w) div 2) (y - (th - new_h) div 2)
                     then px scaled (x - (tw - new_w) div 2) (y - (th - new_h) div 2)
                     else (255, 255, 255))))"
      by (intro conjI exI) (rule d q p)+
  qed
  show ?thesis
    by (intro exI conjI) (rule s m z pw w ph h aw ah bw bh cw ch f r)+
qed

text \<open>Whenever the fitter returns, under either policy, the image has the target's size.\<close>

lemma resize_to_poster_size:
  assumes "resize_to_poster lanczos img (tw, th) mode = Inr poster"
  shows "width poster = tw \<and> height poster = th"
  using assms
  by (auto simp: resize_to_poster_def bind_err_def crop_def new_image_def paste_def
      Let_def split: if_splits sum.splits prod.splits)

text \<open>
  An error that a step cannot raise is not the result of a chain of such steps.
\<close>

lemma bind_err_other:
  assumes "m \<noteq> Inl e" and "\<And>v. f v \<noteq> Inl e"
  shows "bind_err m f \<noteq> Inl e"
  using assms by (cases m) (simp_all add: bind_err_def)

text \<open>
  A scale of at most 0 gives a scaled size of at most 0 on both axes, and the library's
  resize refuses such a size: with \<open>OverflowError\<close> when a side is no C \<open>int\<close>, with its
  \<open>ValueError\<close> otherwise.
\<close>

lemma nonpositive_scale_size:
  assumes "pil_dim (width img)" and "pil_dim (height img)"
    and "scale \<le> 0" and "\<bar>scale\<bar> \<le> 2 ^ 32"
  shows "\<exists>new_w new_h. scaled_size img scale = Inr (new_w, new_h) \<and> new_w \<le> 0 \<and> new_h \<le> 0"
proof -
  have "of_int (width img) * scale \<le> 0"
    using pil_dim_rat(1) [OF assms(1)] assms(3) by (simp add: mult_le_0_iff)
  then have w: "py_round (round_binary64 (of_int (width img) * scale)) \<le> 0"
    unfolding py_round_def by (intro rhe_nonpos round_binary64_nonpos)
  have "of_int (height img) * scale \<le> 0"
    using pil_dim_rat(1) [OF assms(2)] assms(3) by (simp add: mult_le_0_iff)
  then have h: "py_round (round_binary64 (of_int (height img) * scale)) \<le> 0"
    unfolding py_round_def by (intro rhe_nonpos round_binary64_nonpos)
  show ?thesis
    using w h by (simp add: scaled_size_value [OF assms(1,2,4)])
qed

lemma nonpositive_size_rejected:
  assumes "pil_dim (width img)" and "pil_dim (height img)"
    and "new_w \<le> 0" and "new_h \<le> 0"
  shows "bind_err (resize lanczos img (new_w, new_h)) f =
    Inl (if c_int new_w \<and> c_int new_h then ValueError Height_And_Width_Must_Be_Positive
         else OverflowError)"
proof -
  have p: "0 < width img" "0 < height img" using assms(1,2) by (simp_all add: pil_dim_def)
  have "new_w < 1 \<or> new_h < 1" using assms(3) by simp
  from resize_below_one [OF p this] show ?thesis by (simp add: bind_err_def)
qed

section \<open>The claims\<close>

text \<open>
  C3. Under the cover policy, for every source image and target of positive size, the
  scaled size \<open>round(width * scale)\<close>, \<open>round(height * scale)\<close> with
  \<open>scale = max(tw / width, th / height)\<close> is at least the target on both axes, and
  the centred crop box lies inside the scaled size. The fitter is the library's resize to
  the scaled size followed by the crop of that box: if the resize raises (a scaled side
  beyond what the library resamples), the fitter raises the same error and there is no
  output; if the resize and the crop return, the output has the target's size and each
  of its pixels is the pixel of the scaled image at a position inside it: none is
  filled in.
\<close>

theorem cover_fills_target:
  assumes "pil_dim (width img)" and "pil_dim (height img)" and "pil_dim tw" and "pil_dim th"
  shows "\<exists>scale new_w new_h.
      cover_scale img tw th = Inr scale
    \<and> scale = max (round_binary64 (of_int tw / of_int (width img)))
                  (round_binary64 (of_int th / of_int (height img)))
    \<and> scaled_size img scale = Inr (new_w, new_h)
    \<and> tw \<le> new_w \<and> th \<le> new_h
    \<and> 0 \<le> (new_w - tw) div 2 \<and> (new_w - tw) div 2 + tw \<le> new_w
    \<and> 0 \<le> (new_h - th) div 2 \<and> (new_h - th) div 2 + th \<le> new_h
    \<and> (\<forall>e. resize lanczos img (new_w, new_h) = Inl e \<longrightarrow>
           resize_to_poster lanczos img (tw, th) ''cover'' = Inl e)
    \<and> (\<forall>scaled. resize lanczos img (new_w, new_h) = Inr scaled \<longrightarrow>
           width scaled = new_w \<and> height scaled = new_h
         \<and> resize_to_poster lanczos img (tw, th) ''cover'' =
             crop scaled ((new_w - tw) div 2, (new_h - th) div 2,
                          (new_w - tw) div 2 + tw, (new_h - th) div 2 + th))
    \<and> (\<forall>scaled poster.
           resize lanczos img (new_w, new_h) = Inr scaled
         \<and> crop scaled ((new_w - tw) div 2, (new_h - th) div 2,
                        (new_w - tw) div 2 + tw, (new_h - th) div 2 + th) = Inr poster \<longrightarrow>
           resize_to_poster lanczos img (tw, th) ''cover'' = Inr poster
         \<and> width poster = tw \<and> height poster = th
         \<and> (\<forall>x y. inside tw th x y \<longrightarrow>
                inside (width scaled) (height scaled)
                  (x + (new_w - tw) div 2) (y + (new_h - th) div 2)
              \<and> px poster x y = px scaled (x + (new_w - tw) div 2) (y + (new_h - th) div 2)
              \<and> px poster x y
                  = lanczos img new_w new_h (x + (new_w - tw) div 2) (y + (new_h - th) div 2)))"
proof -
  from cover_fitted [OF assms, of lanczos] obtain scale new_w new_h where
    s: "cover_scale img tw th = Inr scale"
    and m: "scale = max (round_binary64 (of_int tw / of_int (width img)))
                        (round_binary64 (of_int th / of_int (height img)))"
    and z: "scaled_size img scale = Inr (new_w, new_h)"
    and w: "tw \<le> new_w" and h: "th \<le> new_h"
    and bw: "0 \<le> (new_w - tw) div 2" "(new_w - tw) div 2 + tw \<le> new_w"
    and bh: "0 \<le> (new_h - th) div 2" "(new_h - th) div 2 + th \<le> new_h"
    and f: "\<forall>e. resize lanczos img (new_w, new_h) = Inl e \<longrightarrow>
           resize_to_poster lanczos img (tw, th) ''cover'' = Inl e"
    and r: "\<forall>scaled. resize lanczos img (new_w, new_h) = Inr scaled \<longrightarrow>
           width scaled = new_w \<and> height scaled = new_h \<and> px scaled = lanczos img new_w new_h
         \<and> resize_to_poster lanczos img (tw, th) ''cover'' =
             crop scaled ((new_w - tw) div 2, (new_h - th) div 2,
                          (new_w - tw) div 2 + tw, (new_h - th) div 2 + th)"
    by (elim exE conjE)
  have r': "\<forall>scaled. resize lanczos img (new_w, new_h) = Inr scaled \<longrightarrow>
           width scaled = new_w \<and> height scaled = new_h
         \<and> resize_to_poster lanczos img (tw, th) ''cover'' =
             crop scaled ((new_w - tw) div 2, (new_h - th) div 2,
                          (new_w - tw) div 2 + tw, (new_h - th) div 2 + th)"
    using r by blast
  have p: "\<forall>scaled poster.
           resize lanczos img (new_w, new_h) = Inr scaled
         \<and> crop scaled ((new_w - tw) div 2, (new_h - th) div 2,
                        (new_w - tw) div 2 + tw, (new_h - th) div 2 + th) = Inr poster \<longrightarrow>
           resize_to_poster lanczos img (tw, th) ''cover'' = Inr poster
         \<and> width poster = tw \<and> height poster = th
         \<and> (\<forall>x y. inside tw th x y \<longrightarrow>
                inside (width scaled) (height scaled)
                  (x + (new_w - tw) div 2) (y + (new_h - th) div 2)
              \<and> px poster x y = px scaled (x + (new_w - tw) div 2) (y + (new_h - th) div 2)
              \<and> px poster x y
                  = lanczos img new_w new_h (x + (new_w - tw) div 2) (y + (new_h - th) div 2))"
  proof (intro allI impI, elim conjE)
    fix scaled poster
    assume a: "resize lanczos img (new_w, new_h) = Inr scaled"
      and c: "crop scaled ((new_w - tw) div 2, (new_h - th) div 2,
                        (new_w - tw) div 2 + tw, (new_h - th) div 2 + th) = Inr poster"
    from r a have d: "width scaled = new_w" "height scaled = new_h"
        "px scaled = lanczos img new_w new_h"
      and q: "resize_to_poster lanczos img (tw, th) ''cover'' =
             crop scaled ((new_w - tw) div 2, (new_h - th) div 2,
                          (new_w - tw) div 2 + tw, (new_h - th) div 2 + th)"
      by blast+
    have i: "0 \<le> (new_w - tw) div 2" "(new_w - tw) div 2 + tw \<le> width scaled"
        "0 \<le> (new_h - th) div 2" "(new_h - th) div 2 + th \<le> height scaled"
      using bw bh by (simp_all add: d)
    note k = crop_window [OF c i]
    have xy: "\<forall>x y. inside tw th x y \<longrightarrow>
                inside (width scaled) (height scaled)
                  (x + (new_w - tw) div 2) (y + (new_h - th) div 2)
              \<and> px poster x y = px scaled (x + (new_w - tw) div 2) (y + (new_h - th) div 2)
              \<and> px poster x y
                  = lanczos img new_w new_h (x + (new_w - tw) div 2) (y + (new_h - th) div 2)"
      using k(3) by (simp add: d(3))
    have t: "resize_to_poster lanczos img (tw, th) ''cover'' = Inr poster"
      by (simp add: q c)
    show "resize_to_poster lanczos img (tw, th) ''cover'' = Inr poster
         \<and> width poster = tw \<and> height poster = th
         \<and> (\<forall>x y. inside tw th x y \<longrightarrow>
                inside (width scaled) (height scaled)
                  (x + (new_w - tw) div 2) (y + (new_h - th) div 2)
              \<and> px poster x y = px scaled (x + (new_w - tw) div 2) (y + (new_h - th) div 2)
              \<and> px poster x y
                  = lanczos img new_w new_h (x + (new_w - tw) div 2) (y + (new_h - th) div 2))"
      by (intro conjI) (rule t k(1) k(2) xy)+
  qed
  show ?thesis
    by (intro exI conjI) (rule s m z w h bw bh f r' p)+
qed

theorem cover_fills_target_witness:
  "pil_dim (width (ramp 1000 1500)) \<and> pil_dim (height (ramp 1000 1500))
   \<and> pil_dim 4960 \<and> pil_dim 7016
   \<and> scaled_size (ramp 1000 1500) (5584463537939415 / 1125899906842624) = Inr (4960, 7440)
   \<and> result_size (resize nearest (ramp 1000 1500) (4960, 7440)) = Inr (4960, 7440)
   \<and> inside 4960 7016 0 0
   \<and> (\<exists>poster. resize_to_poster nearest (ramp 1000 1500) (4960, 7016) ''cover'' = Inr poster
          \<and> width poster = 4960 \<and> height poster = 7016
          \<and> px poster 0 0 = nearest (ramp 1000 1500) 4960 7440 0 212)"
proof -
  have d: "pil_dim (width (ramp 1000 1500))" "pil_dim (height (ramp 1000 1500))"
      "pil_dim 4960" "pil_dim 7016"
    by (simp_all add: pil_dim_def ramp_def)
  have e: "cover_scale (ramp 1000 1500) 4960 7016 = Inr (5584463537939415 / 1125899906842624)"
    by code_simp
  have f: "scaled_size (ramp 1000 1500) (5584463537939415 / 1125899906842624) = Inr (4960, 7440)"
    by code_simp
  define scaled where
    "scaled = \<lparr>width = 4960, height = 7440, px = nearest (ramp 1000 1500) 4960 7440\<rparr>"
  have a: "resize nearest (ramp 1000 1500) (4960, 7440) = Inr scaled"
    by (simp add: resize_within_limits lanczos_max_size_def scaled_def)
  have g: "result_size (resize nearest (ramp 1000 1500) (4960, 7440)) = Inr (4960, 7440)"
    by (simp add: a result_size_def scaled_def)
  have i: "inside 4960 7016 0 0" by (simp add: inside_def)
  from crop_returns [of 4960 7016 scaled "(4960 - 4960) div 2" "(7440 - 7016) div 2"]
  obtain poster where
    c: "crop scaled ((4960 - 4960) div 2, (7440 - 7016) div 2,
                     (4960 - 4960) div 2 + 4960, (7440 - 7016) div 2 + 7016) = Inr poster"
    by auto
  from cover_fills_target [OF d, of nearest] obtain scale new_w new_h where
    s: "cover_scale (ramp 1000 1500) 4960 7016 = Inr scale"
    and z: "scaled_size (ramp 1000 1500) scale = Inr (new_w, new_h)"
    and p: "\<forall>scaled poster.
           resize nearest (ramp 1000 1500) (new_w, new_h) = Inr scaled
         \<and> crop scaled ((new_w - 4960) div 2, (new_h - 7016) div 2,
                        (new_w - 4960) div 2 + 4960, (new_h - 7016) div 2 + 7016) = Inr poster \<longrightarrow>
           resize_to_poster nearest (ramp 1000 1500) (4960, 7016) ''cover'' = Inr poster
         \<and> width poster = 4960 \<and> height poster = 7016
         \<and> (\<forall>x y. inside 4960 7016 x y \<longrightarrow>
                inside (width scaled) (height scaled)
                  (x + (new_w - 4960) div 2) (y + (new_h - 7016) div 2)
              \<and> px poster x y = px scaled (x + (new_w - 4960) div 2) (y + (new_h - 7016) div 2)
              \<and> px poster x y
                  = nearest (ramp 1000 1500) new_w new_h
                      (x + (new_w - 4960) div 2) (y + (new_h - 7016) div 2))"
    by (elim exE conjE)
  from s e have "scale = 5584463537939415 / 1125899906842624" by simp
  with z f have n: "new_w = 4960" "new_h = 7440" by simp_all
  from p [unfolded n, rule_format, of scaled poster] a c
  have q: "resize_to_poster nearest (ramp 1000 1500) (4960, 7016) ''cover'' = Inr poster"
    and v: "width poster = 4960" "height poster = 7016"
    and x: "\<forall>x y. inside 4960 7016 x y \<longrightarrow>
                inside (width scaled) (height scaled)
                  (x + (4960 - 4960) div 2) (y + (7440 - 7016) div 2)
              \<and> px poster x y = px scaled (x + (4960 - 4960) div 2) (y + (7440 - 7016) div 2)
              \<and> px poster x y
                  = nearest (ramp 1000 1500) 4960 7440
                      (x + (4960 - 4960) div 2) (y + (7440 - 7016) div 2)"
    by blast+
  from x i have "px poster 0 0 = nearest (ramp 1000 1500) 4960 7440
      (0 + (4960 - 4960) div 2) (0 + (7440 - 7016) div 2)"
    by blast
  then have y: "px poster 0 0 = nearest (ramp 1000 1500) 4960 7440 0 212" by simp
  have "\<exists>poster. resize_to_poster nearest (ramp 1000 1500) (4960, 7016) ''cover'' = Inr poster
          \<and> width poster = 4960 \<and> height poster = 7016
          \<and> px poster 0 0 = nearest (ramp 1000 1500) 4960 7440 0 212"
    by (intro exI conjI) (rule q v y)+
  then show ?thesis using d f g i by (intro conjI)
qed

text \<open>
  C5. In both policies the offset on an axis is the floor of half the excess, so that an
  odd excess leaves its extra pixel on the right or at the bottom. Cover: the output is
  \<open>tw\<close> by \<open>th\<close> and its pixel \<open>(x, y)\<close> is the pixel \<open>(x + left, y + top)\<close> of the
  scaled image, which is \<open>new_w\<close> by \<open>new_h\<close>, with \<open>left = (new_w - tw) div 2\<close> and
  \<open>top = (new_h - th) div 2\<close>; so \<open>left\<close> columns are cut on the left and
  \<open>new_w - (left + tw)\<close> on the right, which is \<open>left\<close> plus \<open>(new_w - tw) mod 2\<close>
  (rows alike). Contain: the output is \<open>tw\<close> by \<open>th\<close>, the pixel \<open>(x, y)\<close> of the
  scaled image is the output's pixel \<open>(x + left, y + top)\<close> with
  \<open>left = (tw - new_w) div 2\<close> and \<open>top = (th - new_h) div 2\<close>, and every pixel outside
  that rectangle is white; so the margin is \<open>left\<close> columns on the left and
  \<open>tw - (left + new_w)\<close> on the right, which is \<open>left\<close> plus \<open>(tw - new_w) mod 2\<close>
  (rows alike). The facts about the output are stated for the runs in which the
  library's calls (the resize, then the crop or the new background) return.
\<close>

theorem centering_floor_division:
  assumes "pil_dim (width img)" and "pil_dim (height img)" and "pil_dim tw" and "pil_dim th"
  shows "(\<exists>scale new_w new_h left_cut top_cut.
            cover_scale img tw th = Inr scale
          \<and> scaled_size img scale = Inr (new_w, new_h)
          \<and> left_cut = (new_w - tw) div 2 \<and> top_cut = (new_h - th) div 2
          \<and> 0 \<le> left_cut \<and> left_cut + tw \<le> new_w
          \<and> 0 \<le> top_cut \<and> top_cut + th \<le> new_h
          \<and> new_w - (left_cut + tw) = left_cut + (new_w - tw) mod 2
          \<and> new_h - (top_cut + th) = top_cut + (new_h - th) mod 2
          \<and> (\<forall>scaled. resize lanczos img (new_w, new_h) = Inr scaled \<longrightarrow>
                 width scaled = new_w \<and> height scaled = new_h
               \<and> resize_to_poster lanczos img (tw, th) ''cover'' =
                   crop scaled (left_cut, top_cut, left_cut + tw, top_cut + th))
          \<and> (\<forall>scaled poster.
                 resize lanczos img (new_w, new_h) = Inr scaled
               \<and> crop scaled (left_cut, top_cut, left_cut + tw, top_cut + th) = Inr poster \<longrightarrow>
                 resize_to_poster lanczos img (tw, th) ''cover'' = Inr poster
               \<and> width poster = tw \<and> height poster = th
               \<and> (\<forall>x y. inside tw th x y \<longrightarrow>
                      px poster x y = px scaled (x + left_cut) (y + top_cut))))
       \<and> (\<exists>scale new_w new_h left_pad top_pad.
            contain_scale img tw th = Inr scale
          \<and> scaled_size img scale = Inr (new_w, new_h)
          \<and> left_pad = (tw - new_w) div 2 \<and> top_pad = (th - new_h) div 2
          \<and> 0 \<le> left_pad \<and> left_pad + new_w \<le> tw
          \<and> 0 \<le> top_pad \<and> top_pad + new_h \<le> th
          \<and> tw - (left_pad + new_w) = left_pad + (tw - new_w) mod 2
          \<and> th - (top_pad + new_h) = top_pad + (th - new_h) mod 2
          \<and> (\<forall>scaled bg.
                 resize lanczos img (new_w, new_h) = Inr scaled
               \<and> new_image (tw, th) (255, 255, 255) = Inr bg \<longrightarrow>
                 width scaled = new_w \<and> height scaled = new_h
               \<and> (\<exists>poster. resize_to_poster lanczos img (tw, th) ''contain'' = Inr poster
                    \<and> width poster = tw \<and> height poster = th
                    \<and> (\<forall>x y. inside new_w new_h x y \<longrightarrow>
                           px poster (x + left_pad) (y + top_pad) = px scaled x y)
                    \<and> (\<forall>x y. \<not> inside new_w new_h (x - left_pad) (y - top_pad) \<longrightarrow>
                           px poster x y = (255, 255, 255)))))"
proof (rule conjI)
  from cover_fitted [OF assms, of lanczos] obtain scale new_w new_h where
    s: "cover_scale img tw th = Inr scale"
    and z: "scaled_size img scale = Inr (new_w, new_h)"
    and bw: "0 \<le> (new_w - tw) div 2" "(new_w - tw) div 2 + tw \<le> new_w"
    and bh: "0 \<le> (new_h - th) div 2" "(new_h - th) div 2 + th \<le> new_h"
    and rw: "new_w - ((new_w - tw) div 2 + tw) = (new_w - tw) div 2 + (new_w - tw) mod 2"
    and rh: "new_h - ((new_h - th) div 2 + th) = (new_h - th) div 2 + (new_h - th) mod 2"
    and r: "\<forall>scaled. resize lanczos img (new_w, new_h) = Inr scaled \<longrightarrow>
           width scaled = new_w \<and> height scaled = new_h \<and> px scaled = lanczos img new_w new_h
         \<and> resize_to_poster lanczos img (tw, th) ''cover'' =
             crop scaled ((new_w - tw) div 2, (new_h - th) div 2,
                          (new_w - tw) div 2 + tw, (new_h - th) div 2 + th)"
    by (elim exE conjE)
  have r': "\<forall>scaled. resize lanczos img (new_w, new_h) = Inr scaled \<longrightarrow>
           width scaled = new_w \<and> height scaled = new_h
         \<and> resize_to_poster lanczos img (tw, th) ''cover'' =
             crop scaled ((new_w - tw) div 2, (new_h - th) div 2,
                          (new_w - tw) div 2 + tw, (new_h - th) div 2 + th)"
    using r by blast
  have p: "\<forall>scaled poster.
           resize lanczos img (new_w, new_h) = Inr scaled
         \<and> crop scaled ((new_w - tw) div 2, (new_h - th) div 2,
                        (new_w - tw) div 2 + tw, (new_h - th) div 2 + th) = Inr poster \<longrightarrow>
           resize_to_poster lanczos img (tw, th) ''cover'' = Inr poster
         \<and> width poster = tw \<and> height poster = th
         \<and> (\<forall>x y. inside tw th x y \<longrightarrow>
                px poster x y = px scaled (x + (new_w - tw) div 2) (y + (new_h - th) div 2))"
  proof (intro allI impI, elim conjE)
    fix scaled poster
    assume a: "resize lanczos img (new_w, new_h) = Inr scaled"
      and c: "crop scaled ((new_w - tw) div 2, (new_h - th) div 2,
                        (new_w - tw) div 2 + tw, (new_h - th) div 2 + th) = Inr poster"
    from r a have d: "width scaled = new_w" "height scaled = new_h"
      and q: "resize_to_poster lanczos img (tw, th) ''cover'' =
             crop scaled ((new_w - tw) div 2, (new_h - th) div 2,
                          (new_w - tw) div 2 + tw, (new_h - th) div 2 + th)"
      by blast+
    have i: "0 \<le> (new_w - tw) div 2" "(new_w - tw) div 2 + tw \<le> width scaled"
        "0 \<le> (new_h - th) div 2" "(new_h - th) div 2 + th \<le> height scaled"
      using bw bh by (simp_all add: d)
    note k = crop_window [OF c i]
    have xy: "\<forall>x y. inside tw th x y \<longrightarrow>
                px poster x y = px scaled (x + (new_w - tw) div 2) (y + (new_h - th) div 2)"
      using k(3) by blast
    have t: "resize_to_poster lanczos img (tw, th) ''cover'' = Inr poster"
      by (simp add: q c)
    show "resize_to_poster lanczos img (tw, th) ''cover'' = Inr poster
         \<and> width poster = tw \<and> height poster = th
         \<and> (\<forall>x y. inside tw th x y \<longrightarrow>
                px poster x y = px scaled (x + (new_w - tw) div 2) (y + (new_h - th) div 2))"
      by (intro conjI) (rule t k(1) k(2) xy)+
  qed
  show "\<exists>scale new_w new_h left_cut top_cut.
            cover_scale img tw th = Inr scale
          \<and> scaled_size img scale = Inr (new_w, new_h)
          \<and> left_cut = (new_w - tw) div 2 \<and> top_cut = (new_h - th) div 2
          \<and> 0 \<le> left_cut \<and> left_cut + tw \<le> new_w
          \<and> 0 \<le> top_cut \<and> top_cut + th \<le> new_h
          \<and> new_w - (left_cut + tw) = left_cut + (new_w - tw) mod 2
          \<and> new_h - (top_cut + th) = top_cut + (new_h - th) mod 2
          \<and> (\<forall>scaled. resize lanczos img (new_w, new_h) = Inr scaled \<longrightarrow>
                 width scaled = new_w \<and> height scaled = new_h
               \<and> resize_to_poster lanczos img (tw, th) ''cover'' =
                   crop scaled (left_cut, top_cut, left_cut + tw, top_cut + th))
          \<and> (\<forall>scaled poster.
                 resize lanczos img (new_w, new_h) = Inr scaled
               \<and> crop scaled (left_cut, top_cut, left_cut + tw, top_cut + th) = Inr poster \<longrightarrow>
                 resize_to_poster lanczos img (tw, th) ''cover'' = Inr poster
               \<and> width poster = tw \<and> height poster = th
               \<and> (\<forall>x y. inside tw th x y \<longrightarrow>
                      px poster x y = px scaled (x + left_cut) (y + top_cut)))"
    by (intro exI conjI) (rule s z refl bw bh rw rh r' p)+
next
  from contain_letterbox [OF assms, of lanczos] obtain scale new_w new_h where
    s: "contain_scale img tw th = Inr scale"
    and z: "scaled_size img scale = Inr (new_w, new_h)"
    and bw: "0 \<le> (tw - new_w) div 2" "(tw - new_w) div 2 + new_w \<le> tw"
    and bh: "0 \<le> (th - new_h) div 2" "(th - new_h) div 2 + new_h \<le> th"
    and rw: "tw - ((tw - new_w) div 2 + new_w) = (tw - new_w) div 2 + (tw - new_w) mod 2"
    and rh: "th - ((th - new_h) div 2 + new_h) = (th - new_h) div 2 + (th - new_h) mod 2"
    and r: "\<forall>scaled bg. resize lanczos img (new_w, new_h) = Inr scaled
                    \<and> new_image (tw, th) (255, 255, 255) = Inr bg \<longrightarrow>
           width scaled = new_w \<and> height scaled = new_h \<and> px scaled = lanczos img new_w new_h
         \<and> (\<exists>poster. resize_to_poster lanczos img (tw, th) ''contain'' = Inr poster
              \<and> width poster = tw \<and> height poster = th
              \<and> (\<forall>x y. px poster x y =
                    (if inside new_w new_h (x - (tw - new_w) div 2) (y - (th - new_h) div 2)
                     then px scaled (x - (tw - new_w) div 2) (y - (th - new_h) div 2)
                     else (255, 255, 255))))"
    by (elim exE conjE)
  have p: "\<forall>scaled bg.
                 resize lanczos img (new_w, new_h) = Inr scaled
               \<and> new_image (tw, th) (255, 255, 255) = Inr bg \<longrightarrow>
                 width scaled = new_w \<and> height scaled = new_h
               \<and> (\<exists>poster. resize_to_poster lanczos img (tw, th) ''contain'' = Inr poster
                    \<and> width poster = tw \<and> height poster = th
                    \<and> (\<forall>x y. inside new_w new_h x y \<longrightarrow>
                           px poster (x + (tw - new_w) div 2) (y + (th - new_h) div 2)
                             = px scaled x y)
                    \<and> (\<forall>x y. \<not> inside new_w new_h (x - (tw - new_w) div 2)
                                   (y - (th - new_h) div 2) \<longrightarrow>
                           px poster x y = (255, 255, 255)))"
  proof (intro allI impI, elim conjE)
    fix scaled bg
    assume a: "resize lanczos img (new_w, new_h) = Inr scaled"
      and b: "new_image (tw, th) (255, 255, 255) = Inr bg"
    from r a b have d: "width scaled = new_w" "height scaled = new_h"
      and e: "\<exists>poster. resize_to_poster lanczos img (tw, th) ''contain'' = Inr poster
              \<and> width poster = tw \<and> height poster = th
              \<and> (\<forall>x y. px poster x y =
                    (if inside new_w new_h (x - (tw - new_w) div 2) (y - (th - new_h) div 2)
                     then px scaled (x - (tw - new_w) div 2) (y - (th - new_h) div 2)
                     else (255, 255, 255)))"
      by blast+
    from e obtain poster where
      t: "resize_to_poster lanczos img (tw, th) ''contain'' = Inr poster"
      and v: "width poster = tw" "height poster = th"
      and x: "\<forall>x y. px poster x y =
                    (if inside new_w new_h (x - (tw - new_w) div 2) (y - (th - new_h) div 2)
                     then px scaled (x - (tw - new_w) div 2) (y - (th - new_h) div 2)
                     else (255, 255, 255))"
      by (elim exE conjE)
    have x1: "\<forall>x y. inside new_w new_h x y \<longrightarrow>
                           px poster (x + (tw - new_w) div 2) (y + (th - new_h) div 2)
                             = px scaled x y"
      by (simp add: x)
    have x2: "\<forall>x y. \<not> inside new_w new_h (x - (tw - new_w) div 2)
                                   (y - (th - new_h) div 2) \<longrightarrow>
                           px poster x y = (255, 255, 255)"
      by (simp add: x)
    have "\<exists>poster. resize_to_poster lanczos img (tw, th) ''contain'' = Inr poster
                    \<and> width poster = tw \<and> height poster = th
                    \<and> (\<forall>x y. inside new_w new_h x y \<longrightarrow>
                           px poster (x + (tw - new_w) div 2) (y + (th - new_h) div 2)
                             = px scaled x y)
                    \<and> (\<forall>x y. \<not> inside new_w new_h (x - (tw - new_w) div 2)
                                   (y - (th - new_h) div 2) \<longrightarrow>
                           px poster x y = (255, 255, 255))"
      by (intro exI conjI) (rule t v x1 x2)+
    then show "width scaled = new_w \<and> height scaled = new_h
               \<and> (\<exists>poster. resize_to_poster lanczos img (tw, th) ''contain'' = Inr poster
                    \<and> width poster = tw \<and> height poster = th
                    \<and> (\<forall>x y. inside new_w new_h x y \<longrightarrow>
                           px poster (x + (tw - new_w) div 2) (y + (th - new_h) div 2)
                             = px scaled x y)
                    \<and> (\<forall>x y. \<not> inside new_w new_h (x - (tw - new_w) div 2)
                                   (y - (th - new_h) div 2) \<longrightarrow>
                           px poster x y = (255, 255, 255)))"
      using d by (intro conjI)
  qed
  show "\<exists>scale new_w new_h left_pad top_pad.
            contain_scale img tw th = Inr scale
          \<and> scaled_size img scale = Inr (new_w, new_h)
          \<and> left_pad = (tw - new_w) div 2 \<and> top_pad = (th - new_h) div 2
          \<and> 0 \<le> left_pad \<and> left_pad + new_w \<le> tw
          \<and> 0 \<le> top_pad \<and> top_pad + new_h \<le> th
          \<and> tw - (left_pad + new_w) = left_pad + (tw - new_w) mod 2
          \<and> th - (top_pad + new_h) = top_pad + (th - new_h) mod 2
          \<and> (\<forall>scaled bg.
                 resize lanczos img (new_w, new_h) = Inr scaled
               \<and> new_image (tw, th) (255, 255, 255) = Inr bg \<longrightarrow>
                 width scaled = new_w \<and> height scaled = new_h
               \<and> (\<exists>poster. resize_to_poster lanczos img (tw, th) ''contain'' = Inr poster
                    \<and> width poster = tw \<and> height poster = th
                    \<and> (\<forall>x y. inside new_w new_h x y \<longrightarrow>
                           px poster (x + left_pad) (y + top_pad) = px scaled x y)
                    \<and> (\<forall>x y. \<not> inside new_w new_h (x - left_pad) (y - top_pad) \<longrightarrow>
                           px poster x y = (255, 255, 255))))"
    by (intro exI conjI) (rule s z refl bw bh rw rh p)+
qed

theorem centering_floor_division_witness:
  "pil_dim (width (ramp 2 3)) \<and> pil_dim (height (ramp 2 3)) \<and> pil_dim 8 \<and> pil_dim 7
   \<and> bind_err (cover_scale (ramp 2 3) 8 7) (scaled_size (ramp 2 3)) = Inr (8, 12)
   \<and> bind_err (contain_scale (ramp 2 3) 8 7) (scaled_size (ramp 2 3)) = Inr (5, 7)
   \<and> (\<exists>poster. resize_to_poster nearest (ramp 2 3) (8, 7) ''cover'' = Inr poster
         \<and> width poster = 8 \<and> height poster = 7
         \<and> px poster 0 0 = nearest (ramp 2 3) 8 12 0 2
         \<and> px poster 7 6 = nearest (ramp 2 3) 8 12 7 8)
   \<and> (\<exists>poster. resize_to_poster nearest (ramp 2 3) (8, 7) ''contain'' = Inr poster
         \<and> width poster = 8 \<and> height poster = 7
         \<and> px poster 0 0 = (255, 255, 255)
         \<and> px poster 1 0 = nearest (ramp 2 3) 5 7 0 0
         \<and> px poster 5 6 = nearest (ramp 2 3) 5 7 4 6
         \<and> px poster 6 0 = (255, 255, 255)
         \<and> px poster 7 0 = (255, 255, 255))"
proof -
  have d: "pil_dim (width (ramp 2 3))" "pil_dim (height (ramp 2 3))" "pil_dim 8" "pil_dim 7"
    by (simp_all add: pil_dim_def ramp_def)
  have e1: "bind_err (cover_scale (ramp 2 3) 8 7) (scaled_size (ramp 2 3)) = Inr (8, 12)"
    by code_simp
  have e2: "bind_err (contain_scale (ramp 2 3) 8 7) (scaled_size (ramp 2 3)) = Inr (5, 7)"
    by code_simp
  define big where "big = \<lparr>width = 8, height = 12, px = nearest (ramp 2 3) 8 12\<rparr>"
  define small where "small = \<lparr>width = 5, height = 7, px = nearest (ramp 2 3) 5 7\<rparr>"
  define bg where "bg = \<lparr>width = 8, height = 7, px = (\<lambda>x y. (255::nat, 255::nat, 255::nat))\<rparr>"
  have a1: "resize nearest (ramp 2 3) (8, 12) = Inr big"
    by (simp add: resize_within_limits lanczos_max_size_def big_def)
  have a2: "resize nearest (ramp 2 3) (5, 7) = Inr small"
    by (simp add: resize_within_limits lanczos_max_size_def small_def)
  have b: "new_image (8, 7) (255, 255, 255) = Inr bg"
    by (simp add: new_image_def bg_def)
  from crop_returns [of 8 7 big "(8 - 8) div 2" "(12 - 7) div 2"]
  obtain cropped where
    c: "crop big ((8 - 8) div 2, (12 - 7) div 2, (8 - 8) div 2 + 8, (12 - 7) div 2 + 7)
          = Inr cropped"
    by auto
  note t = centering_floor_division [OF d, of nearest]
  from t [THEN conjunct1] obtain scale new_w new_h left_cut top_cut where
    s: "cover_scale (ramp 2 3) 8 7 = Inr scale"
    and z: "scaled_size (ramp 2 3) scale = Inr (new_w, new_h)"
    and l: "left_cut = (new_w - 8) div 2" "top_cut = (new_h - 7) div 2"
    and p: "\<forall>scaled poster.
                 resize nearest (ramp 2 3) (new_w, new_h) = Inr scaled
               \<and> crop scaled (left_cut, top_cut, left_cut + 8, top_cut + 7) = Inr poster \<longrightarrow>
                 resize_to_poster nearest (ramp 2 3) (8, 7) ''cover'' = Inr poster
               \<and> width poster = 8 \<and> height poster = 7
               \<and> (\<forall>x y. inside 8 7 x y \<longrightarrow>
                      px poster x y = px scaled (x + left_cut) (y + top_cut))"
    by (elim exE conjE)
  from e1 s z have n: "new_w = 8" "new_h = 12" by (simp_all add: bind_err_def)
  from p [unfolded l n, rule_format, of big cropped] a1 c
  have q: "resize_to_poster nearest (ramp 2 3) (8, 7) ''cover'' = Inr cropped"
    and v: "width cropped = 8" "height cropped = 7"
    and x: "\<forall>x y. inside 8 7 x y \<longrightarrow>
              px cropped x y = px big (x + (8 - 8) div 2) (y + (12 - 7) div 2)"
    by blast+
  have y: "px cropped 0 0 = nearest (ramp 2 3) 8 12 0 2"
      "px cropped 7 6 = nearest (ramp 2 3) 8 12 7 8"
    using x [rule_format, of 0 0] x [rule_format, of 7 6]
    by (simp_all add: inside_def big_def)
  have cover: "\<exists>poster. resize_to_poster nearest (ramp 2 3) (8, 7) ''cover'' = Inr poster
         \<and> width poster = 8 \<and> height poster = 7
         \<and> px poster 0 0 = nearest (ramp 2 3) 8 12 0 2
         \<and> px poster 7 6 = nearest (ramp 2 3) 8 12 7 8"
    by (intro exI conjI) (rule q v y)+
  from t [THEN conjunct2] obtain scale' new_w' new_h' left_pad top_pad where
    s': "contain_scale (ramp 2 3) 8 7 = Inr scale'"
    and z': "scaled_size (ramp 2 3) scale' = Inr (new_w', new_h')"
    and l': "left_pad = (8 - new_w') div 2" "top_pad = (7 - new_h') div 2"
    and p': "\<forall>scaled bg.
                 resize nearest (ramp 2 3) (new_w', new_h') = Inr scaled
               \<and> new_image (8, 7) (255, 255, 255) = Inr bg \<longrightarrow>
                 width scaled = new_w' \<and> height scaled = new_h'
               \<and> (\<exists>poster. resize_to_poster nearest (ramp 2 3) (8, 7) ''contain'' = Inr poster
                    \<and> width poster = 8 \<and> height poster = 7
                    \<and> (\<forall>x y. inside new_w' new_h' x y \<longrightarrow>
                           px poster (x + left_pad) (y + top_pad) = px scaled x y)
                    \<and> (\<forall>x y. \<not> inside new_w' new_h' (x - left_pad) (y - top_pad) \<longrightarrow>
                           px poster x y = (255, 255, 255)))"
    by (elim exE conjE)
  from e2 s' z' have n': "new_w' = 5" "new_h' = 7" by (simp_all add: bind_err_def)
  from p' [unfolded l' n', rule_format, of small bg] a2 b
  obtain boxed where
    q': "resize_to_poster nearest (ramp 2 3) (8, 7) ''contain'' = Inr boxed"
    and v': "width boxed = 8" "height boxed = 7"
    and x1: "\<forall>x y. inside 5 7 x y \<longrightarrow>
               px boxed (x + (8 - 5) div 2) (y + (7 - 7) div 2) = px small x y"
    and x2: "\<forall>x y. \<not> inside 5 7 (x - (8 - 5) div 2) (y - (7 - 7) div 2) \<longrightarrow>
               px boxed x y = (255, 255, 255)"
    by blast
  have y': "px boxed 1 0 = nearest (ramp 2 3) 5 7 0 0"
      "px boxed 5 6 = nearest (ramp 2 3) 5 7 4 6"
    using x1 [rule_format, of 0 0] x1 [rule_format, of 4 6]
    by (simp_all add: inside_def small_def)
  have w': "px boxed 0 0 = (255, 255, 255)" "px boxed 6 0 = (255, 255, 255)"
      "px boxed 7 0 = (255, 255, 255)"
    using x2 [rule_format, of 0 0] x2 [rule_format, of 6 0] x2 [rule_format, of 7 0]
    by (simp_all add: inside_def)
  have contain: "\<exists>poster. resize_to_poster nearest (ramp 2 3) (8, 7) ''contain'' = Inr poster
         \<and> width poster = 8 \<and> height poster = 7
         \<and> px poster 0 0 = (255, 255, 255)
         \<and> px poster 1 0 = nearest (ramp 2 3) 5 7 0 0
         \<and> px poster 5 6 = nearest (ramp 2 3) 5 7 4 6
         \<and> px poster 6 0 = (255, 255, 255)
         \<and> px poster 7 0 = (255, 255, 255)"
    by (intro exI conjI) (rule q' v' w' y')+
  show ?thesis using d e1 e2 cover contain by (intro conjI)
qed

text \<open>
  C1. The fitter is to return an image of exactly the target size for every source image
  of positive size, under both policies. Under contain it does not for a source as thin
  as 1 by 20000 pixels: at 300 DPI the target is 4960 by 7016, the scaled width rounds
  to 0 and the library's resize raises \<open>ValueError\<close>, so the run produces no tile.
  (What holds: whatever the fitter returns has the target's size,
  \<open>resize_to_poster_size\<close>; and under cover it returns whenever the library's resize to
  the scaled size does, \<open>cover_fitted\<close> and \<open>crop_returns\<close>. For this source that
  resize fails under cover as well, with \<open>MemoryError\<close>: see C6.)
\<close>

theorem thin_image_contain_run_fails:
  "tile_sizes (main_tiles nearest (ramp 1 20000) 300 ''contain'')
     = Inl (ValueError Height_And_Width_Must_Be_Positive)"
  by code_simp

text \<open>
  C4. Under contain the scaled image is to be pasted centred onto the white background
  for every source image. For the 1 by 20000 source and the target 4960 by 7016 the
  scale is the float 0.3508, the scaled size is 0 by 7016, and the fitter raises the
  resize's \<open>ValueError\<close>: nothing is pasted. (Whenever the resize returns,
  \<open>contain_letterbox\<close> above gives the geometry the claim describes.)
\<close>

theorem thin_image_nothing_pasted:
  "contain_scale (ramp 1 20000) 4960 7016 = Inr (789931374640785 / 2251799813685248)
   \<and> scaled_size (ramp 1 20000) (789931374640785 / 2251799813685248) = Inr (0, 7016)
   \<and> result_size (resize_to_poster nearest (ramp 1 20000) (4960, 7016) ''contain'')
       = Inl (ValueError Height_And_Width_Must_Be_Positive)"
  by code_simp



text \<open>
  C6. The run at 300 DPI under cover is said to produce 4 tiles of 2480 by 3508 pixels
  for any source image. For a source of 1 by 20000 pixels the scale is 4960, the scaled
  size is 4960 by 99200000, and the library's resize raises \<open>MemoryError\<close>: the run
  produces no tile.
\<close>

theorem thin_image_cover_run_fails:
  "tile_sizes (main_tiles nearest (ramp 1 20000) 300 ''cover'') = Inl MemoryError"
  by code_simp

text \<open>
  C6, amended. The pixel size of a page is \<open>round(mm_to_inches(dimension) * dpi)\<close> for
  the 210 mm by 297 mm page; at 300 DPI it is 2480 by 3508. For every source image (of a
  size the library can hold) the cover run at 300 DPI scales the source to at least
  4960 by 7016; if the library's resize to that scaled size returns, the run produces
  exactly 4 tiles, for \<open>(row, col)\<close> in row-major order, each of 2480 by 3508 pixels;
  if the resize raises, the run ends with that error and produces no tile.
\<close>

theorem a4_300_cover_four_tiles:
  assumes "pil_dim (width img)" and "pil_dim (height img)" and "pil_dim dpi"
  shows "a4_pixels dpi =
      Inr (py_round (round_binary64 (mm_to_inches (fst A4_MM) * of_int dpi)),
           py_round (round_binary64 (mm_to_inches (snd A4_MM) * of_int dpi)))
    \<and> a4_pixels 300 = Inr (2480, 3508)
    \<and> (\<exists>scale new_w new_h.
          cover_scale img 4960 7016 = Inr scale
        \<and> scaled_size img scale = Inr (new_w, new_h)
        \<and> 4960 \<le> new_w \<and> 7016 \<le> new_h
        \<and> (\<forall>e. resize lanczos img (new_w, new_h) = Inl e \<longrightarrow>
               main_tiles lanczos img 300 ''cover'' = Inl e)
        \<and> (\<forall>scaled. resize lanczos img (new_w, new_h) = Inr scaled \<longrightarrow>
               (\<exists>tiles. main_tiles lanczos img 300 ''cover'' = Inr tiles
                  \<and> length tiles = 4
                  \<and> map fst tiles = [(0, 0), (0, 1), (1, 0), (1, 1)]
                  \<and> (\<forall>(rc, tile) \<in> set tiles. width tile = 2480 \<and> height tile = 3508))))"
proof (intro conjI)
  have "\<bar>mm_to_inches (fst A4_MM)\<bar> \<le> 2 ^ 32" "\<bar>mm_to_inches (snd A4_MM)\<bar> \<le> 2 ^ 32"
    by (simp_all add: mm_to_inches_a4)
  then show "a4_pixels dpi =
      Inr (py_round (round_binary64 (mm_to_inches (fst A4_MM) * of_int dpi)),
           py_round (round_binary64 (mm_to_inches (snd A4_MM) * of_int dpi)))"
    using assms(3) by (simp add: a4_pixels_def Let_def float_times_int_value bind_err_def)
  show "a4_pixels 300 = Inr (2480, 3508)" by (rule a4_pixels_300)
  have t: "pil_dim 4960" "pil_dim 7016" by (simp_all add: pil_dim_def)
  have m: "main_tiles lanczos img 300 ''cover'' =
      bind_err (resize_to_poster lanczos img (4960, 7016) ''cover'')
        (\<lambda>poster. slice_tiles poster 2480 3508)"
    by (simp add: main_tiles_def a4_pixels_300 bind_err_def)
  from cover_fitted [OF assms(1,2) t, of lanczos] obtain scale new_w new_h where
    s: "cover_scale img 4960 7016 = Inr scale"
    and z: "scaled_size img scale = Inr (new_w, new_h)"
    and w: "4960 \<le> new_w" and h: "7016 \<le> new_h"
    and f: "\<forall>e. resize lanczos img (new_w, new_h) = Inl e \<longrightarrow>
           resize_to_poster lanczos img (4960, 7016) ''cover'' = Inl e"
    and r: "\<forall>scaled. resize lanczos img (new_w, new_h) = Inr scaled \<longrightarrow>
           width scaled = new_w \<and> height scaled = new_h \<and> px scaled = lanczos img new_w new_h
         \<and> resize_to_poster lanczos img (4960, 7016) ''cover'' =
             crop scaled ((new_w - 4960) div 2, (new_h - 7016) div 2,
                          (new_w - 4960) div 2 + 4960, (new_h - 7016) div 2 + 7016)"
    by (elim exE conjE)
  have f': "\<forall>e. resize lanczos img (new_w, new_h) = Inl e \<longrightarrow>
               main_tiles lanczos img 300 ''cover'' = Inl e"
    using f by (simp add: m bind_err_def)
  have r': "\<forall>scaled. resize lanczos img (new_w, new_h) = Inr scaled \<longrightarrow>
               (\<exists>tiles. main_tiles lanczos img 300 ''cover'' = Inr tiles
                  \<and> length tiles = 4
                  \<and> map fst tiles = [(0, 0), (0, 1), (1, 0), (1, 1)]
                  \<and> (\<forall>(rc, tile) \<in> set tiles. width tile = 2480 \<and> height tile = 3508))"
  proof (intro allI impI)
    fix scaled
    assume a: "resize lanczos img (new_w, new_h) = Inr scaled"
    from crop_returns [of 4960 7016 scaled "(new_w - 4960) div 2" "(new_h - 7016) div 2"]
    obtain poster where
      c: "crop scaled ((new_w - 4960) div 2, (new_h - 7016) div 2,
                       (new_w - 4960) div 2 + 4960, (new_h - 7016) div 2 + 7016) = Inr poster"
      by auto
    from r a c have q: "resize_to_poster lanczos img (4960, 7016) ''cover'' = Inr poster"
      by simp
    have "main_tiles lanczos img 300 ''cover'' = slice_tiles poster 2480 3508"
      by (simp add: m q bind_err_def)
    then show "\<exists>tiles. main_tiles lanczos img 300 ''cover'' = Inr tiles
                  \<and> length tiles = 4
                  \<and> map fst tiles = [(0, 0), (0, 1), (1, 0), (1, 1)]
                  \<and> (\<forall>(rc, tile) \<in> set tiles. width tile = 2480 \<and> height tile = 3508)"
      by (simp add: slice_tiles_value)
  qed
  show "\<exists>scale new_w new_h.
          cover_scale img 4960 7016 = Inr scale
        \<and> scaled_size img scale = Inr (new_w, new_h)
        \<and> 4960 \<le> new_w \<and> 7016 \<le> new_h
        \<and> (\<forall>e. resize lanczos img (new_w, new_h) = Inl e \<longrightarrow>
               main_tiles lanczos img 300 ''cover'' = Inl e)
        \<and> (\<forall>scaled. resize lanczos img (new_w, new_h) = Inr scaled \<longrightarrow>
               (\<exists>tiles. main_tiles lanczos img 300 ''cover'' = Inr tiles
                  \<and> length tiles = 4
                  \<and> map fst tiles = [(0, 0), (0, 1), (1, 0), (1, 1)]
                  \<and> (\<forall>(rc, tile) \<in> set tiles. width tile = 2480 \<and> height tile = 3508)))"
    by (intro exI conjI) (rule s z w h f' r')+
qed

theorem a4_300_cover_four_tiles_witness:
  "pil_dim (width (ramp 1000 1500)) \<and> pil_dim (height (ramp 1000 1500)) \<and> pil_dim 72
   \<and> a4_pixels 72 = Inr (595, 842)
   \<and> bind_err (cover_scale (ramp 1000 1500) 4960 7016) (scaled_size (ramp 1000 1500))
       = Inr (4960, 7440)
   \<and> result_size (resize nearest (ramp 1000 1500) (4960, 7440)) = Inr (4960, 7440)
   \<and> tile_sizes (main_tiles nearest (ramp 1000 1500) 300 ''cover'')
       = Inr [((0, 0), 2480, 3508), ((0, 1), 2480, 3508),
              ((1, 0), 2480, 3508), ((1, 1), 2480, 3508)]"
proof -
  have d: "pil_dim (width (ramp 1000 1500))" "pil_dim (height (ramp 1000 1500))" "pil_dim 72"
    by (simp_all add: pil_dim_def ramp_def)
  have e: "py_round (round_binary64 (mm_to_inches (fst A4_MM) * of_int 72)) = 595"
      "py_round (round_binary64 (mm_to_inches (snd A4_MM) * of_int 72)) = 842"
    by code_simp+
  have g: "bind_err (cover_scale (ramp 1000 1500) 4960 7016) (scaled_size (ramp 1000 1500))
       = Inr (4960, 7440)"
    by code_simp
  define scaled where
    "scaled = \<lparr>width = 4960, height = 7440, px = nearest (ramp 1000 1500) 4960 7440\<rparr>"
  have a: "resize nearest (ramp 1000 1500) (4960, 7440) = Inr scaled"
    by (simp add: resize_within_limits lanczos_max_size_def scaled_def)
  have i: "result_size (resize nearest (ramp 1000 1500) (4960, 7440)) = Inr (4960, 7440)"
    by (simp add: a result_size_def scaled_def)
  note t = a4_300_cover_four_tiles [OF d, of nearest]
  from t have p: "a4_pixels 72 = Inr (595, 842)" unfolding e by (elim conjE)
  from t obtain scale new_w new_h where
    s: "cover_scale (ramp 1000 1500) 4960 7016 = Inr scale"
    and z: "scaled_size (ramp 1000 1500) scale = Inr (new_w, new_h)"
    and r: "\<forall>scaled. resize nearest (ramp 1000 1500) (new_w, new_h) = Inr scaled \<longrightarrow>
               (\<exists>tiles. main_tiles nearest (ramp 1000 1500) 300 ''cover'' = Inr tiles
                  \<and> length tiles = 4
                  \<and> map fst tiles = [(0, 0), (0, 1), (1, 0), (1, 1)]
                  \<and> (\<forall>(rc, tile) \<in> set tiles. width tile = 2480 \<and> height tile = 3508))"
    by (elim conjE exE)
  from g s z have n: "new_w = 4960" "new_h = 7440" by (simp_all add: bind_err_def)
  from r [unfolded n, rule_format, OF a] obtain tiles where
    m: "main_tiles nearest (ramp 1000 1500) 300 ''cover'' = Inr tiles"
    and k: "map fst tiles = [(0, 0), (0, 1), (1, 0), (1, 1)]"
    and y: "\<forall>(rc, tile) \<in> set tiles. width tile = 2480 \<and> height tile = 3508"
    by (elim conjE exE)
  from k obtain t1 t2 t3 t4 where
    l: "tiles = [((0, 0), t1), ((0, 1), t2), ((1, 0), t3), ((1, 1), t4)]"
    by (auto simp: map_eq_Cons_conv)
  from y have "tile_sizes (Inr tiles)
       = Inr [((0, 0), 2480, 3508), ((0, 1), 2480, 3508),
              ((1, 0), 2480, 3508), ((1, 1), 2480, 3508)]"
    by (simp add: l tile_sizes_def)
  then have x: "tile_sizes (main_tiles nearest (ramp 1000 1500) 300 ''cover'')
       = Inr [((0, 0), 2480, 3508), ((0, 1), 2480, 3508),
              ((1, 0), 2480, 3508), ((1, 1), 2480, 3508)]"
    by (simp add: m)
  show ?thesis using d p g i x by (intro conjI)
qed




text \<open>
  C8. For every policy value other than cover and contain the fitter fails with its own
  \<open>ValueError\<close> (the specification's InvalidPolicy), whatever the image, the target
  and the resampling filter are: the result depends on nothing a resize would compute,
  and no other failure (an empty image, a target without area) comes first. For cover
  and contain that error is never the result.
\<close>

theorem invalid_policy_rejected_first:
  "(mode \<noteq> ''cover'' \<and> mode \<noteq> ''contain'' \<longrightarrow>
      resize_to_poster lanczos img target_size mode = Inl (ValueError Mode_Must_Be_Cover_Or_Contain))
   \<and> (mode = ''cover'' \<or> mode = ''contain'' \<longrightarrow>
      resize_to_poster lanczos img target_size mode \<noteq> Inl (ValueError Mode_Must_Be_Cover_Or_Contain))"
proof (intro conjI impI)
  assume "mode \<noteq> ''cover'' \<and> mode \<noteq> ''contain''"
  then show "resize_to_poster lanczos img target_size mode
      = Inl (ValueError Mode_Must_Be_Cover_Or_Contain)"
    by (simp add: resize_to_poster_def split: prod.splits)
next
  have f: "to_float x \<noteq> Inl (ValueError e)" for x e
    by (simp add: to_float_def Let_def)
  have d: "int_truediv a b \<noteq> Inl (ValueError e)" for a b e
    by (simp add: int_truediv_def f)
  have m: "int_times_float n s \<noteq> Inl (ValueError e)" for n s e
    using f by (auto simp: int_times_float_def int_to_float_def float_mul_def bind_err_def
        split: sum.splits)
  have cs: "cover_scale img tw th \<noteq> Inl (ValueError e)" for tw th e
    using d by (auto simp: cover_scale_def bind_err_def split: sum.splits)
  have ct: "contain_scale img tw th \<noteq> Inl (ValueError e)" for tw th e
    using d by (auto simp: contain_scale_def bind_err_def split: sum.splits)
  have z: "scaled_size img s \<noteq> Inl (ValueError e)" for s e
    using m by (auto simp: scaled_size_def bind_err_def split: sum.splits)
  have rs: "resize lanczos img new_size \<noteq> Inl (ValueError Mode_Must_Be_Cover_Or_Contain)"
    for new_size
    by (cases new_size) (auto dest: resize_failed)
  have cr: "crop s box \<noteq> Inl (ValueError Mode_Must_Be_Cover_Or_Contain)" for s box
    by (simp add: crop_def split: prod.splits)
  have ni: "new_image new_size c \<noteq> Inl (ValueError Mode_Must_Be_Cover_Or_Contain)"
    for new_size c
    by (simp add: new_image_def split: prod.splits)
  obtain tw th where t: "target_size = (tw, th)" by (cases target_size)
  have cover: "resize_to_poster lanczos img (tw, th) ''cover''
      \<noteq> Inl (ValueError Mode_Must_Be_Cover_Or_Contain)"
    by (simp add: resize_to_poster_def Let_def split_def) (intro bind_err_other cs z rs cr)
  have contain: "resize_to_poster lanczos img (tw, th) ''contain''
      \<noteq> Inl (ValueError Mode_Must_Be_Cover_Or_Contain)"
    by (simp add: resize_to_poster_def Let_def split_def)
      (intro bind_err_other ct z rs ni, simp)
  assume "mode = ''cover'' \<or> mode = ''contain''"
  then show "resize_to_poster lanczos img target_size mode
      \<noteq> Inl (ValueError Mode_Must_Be_Cover_Or_Contain)"
    using cover contain by (auto simp: t)
qed

theorem invalid_policy_rejected_first_witness:
  "''fill'' \<noteq> ''cover'' \<and> ''fill'' \<noteq> ''contain''
   \<and> resize_to_poster nearest (ramp 0 1) (3, 0) ''fill''
      = Inl (ValueError Mode_Must_Be_Cover_Or_Contain)
   \<and> resize_to_poster nearest (ramp 0 1) (3, 0) ''cover''
      \<noteq> Inl (ValueError Mode_Must_Be_Cover_Or_Contain)"
  using invalid_policy_rejected_first [of "''fill''" nearest "ramp 0 1" "(3, 0)"]
    invalid_policy_rejected_first [of "''cover''" nearest "ramp 0 1" "(3, 0)"]
  by simp

text \<open>
  C9. The fitter is said to fail whenever the target width or height is at most 0. It
  has no check of the target: under cover, the target 0 by 1 for a 1 by 1 source scales
  the source to 1 by 1, crops a box of width 0 and returns an image of 0 by 1 pixels.
\<close>

theorem thin_target_returns_empty_image:
  "result_size (resize_to_poster nearest (ramp 1 1) (0, 1) ''cover'') = Inr (0, 1)"
  by code_simp

text \<open>
  C9, amended. The fitter has no check of its own for the target size, and no error of
  its own for it. For a source of positive size and a target with a side of at most 0
  (each side an \<open>int\<close> of the C language): under contain the scaled size is at most 0
  on both axes and the fitter fails in the library's resize, with \<open>ValueError\<close> ("height
  and width must be > 0") when both scaled sides are C \<open>int\<close>s and with
  \<open>OverflowError\<close> otherwise; under cover the same holds when both target sides are at
  most 0; and under cover with a negative target side the fitter fails as well, either
  in the resize or, when the resize has returned the scaled image, in the crop, whose
  box has its right edge left of its left edge (\<open>ValueError\<close>; lower above upper for a
  negative height). Under cover with one side 0 and the other positive the fitter can
  return an empty image.
\<close>

theorem nonpositive_target_fails:
  assumes "pil_dim (width img)" and "pil_dim (height img)"
    and "\<bar>tw\<bar> < 2 ^ 31" and "\<bar>th\<bar> < 2 ^ 31" and "tw \<le> 0 \<or> th \<le> 0"
  shows "(\<exists>scale new_w new_h.
            contain_scale img tw th = Inr scale
          \<and> scaled_size img scale = Inr (new_w, new_h)
          \<and> new_w \<le> 0 \<and> new_h \<le> 0
          \<and> resize lanczos img (new_w, new_h) =
              Inl (if c_int new_w \<and> c_int new_h
                   then ValueError Height_And_Width_Must_Be_Positive else OverflowError)
          \<and> resize_to_poster lanczos img (tw, th) ''contain'' =
              Inl (if c_int new_w \<and> c_int new_h
                   then ValueError Height_And_Width_Must_Be_Positive else OverflowError))
       \<and> (tw \<le> 0 \<and> th \<le> 0 \<longrightarrow>
           (\<exists>scale new_w new_h.
              cover_scale img tw th = Inr scale
            \<and> scaled_size img scale = Inr (new_w, new_h)
            \<and> new_w \<le> 0 \<and> new_h \<le> 0
            \<and> resize lanczos img (new_w, new_h) =
                Inl (if c_int new_w \<and> c_int new_h
                     then ValueError Height_And_Width_Must_Be_Positive else OverflowError)
            \<and> resize_to_poster lanczos img (tw, th) ''cover'' =
                Inl (if c_int new_w \<and> c_int new_h
                     then ValueError Height_And_Width_Must_Be_Positive else OverflowError)))
       \<and> (tw < 0 \<or> th < 0 \<longrightarrow>
           (\<exists>scale new_w new_h e.
              cover_scale img tw th = Inr scale
            \<and> scaled_size img scale = Inr (new_w, new_h)
            \<and> resize_to_poster lanczos img (tw, th) ''cover'' = Inl e
            \<and> (resize lanczos img (new_w, new_h) = Inl e
               \<or> (\<exists>scaled. resize lanczos img (new_w, new_h) = Inr scaled)
                  \<and> e = ValueError (if tw < 0 then Coordinate_Right_Less_Than_Left
                                     else Coordinate_Lower_Less_Than_Upper))))"
proof -
  have p: "0 < width img" "0 < height img" using assms(1,2) by (simp_all add: pil_dim_def)
  from int_truediv_signed [OF assms(1,3)] obtain rw where
    rw: "int_truediv tw (width img) = Inr rw" "\<bar>rw\<bar> \<le> 2 ^ 32" "tw \<le> 0 \<longrightarrow> rw \<le> 0"
    by blast
  from int_truediv_signed [OF assms(2,4)] obtain rh where
    rh: "int_truediv th (height img) = Inr rh" "\<bar>rh\<bar> \<le> 2 ^ 32" "th \<le> 0 \<longrightarrow> rh \<le> 0"
    by blast
  have c: "contain_scale img tw th = Inr (min rw rh)"
    by (simp add: contain_scale_def rw(1) rh(1) bind_err_def)
  have v: "cover_scale img tw th = Inr (max rw rh)"
    by (simp add: cover_scale_def rw(1) rh(1) bind_err_def)
  have bmax: "\<bar>max rw rh\<bar> \<le> 2 ^ 32" using rw(2) rh(2) by (simp add: max_def)
  have A: "\<exists>scale new_w new_h.
            contain_scale img tw th = Inr scale
          \<and> scaled_size img scale = Inr (new_w, new_h)
          \<and> new_w \<le> 0 \<and> new_h \<le> 0
          \<and> resize lanczos img (new_w, new_h) =
              Inl (if c_int new_w \<and> c_int new_h
                   then ValueError Height_And_Width_Must_Be_Positive else OverflowError)
          \<and> resize_to_poster lanczos img (tw, th) ''contain'' =
              Inl (if c_int new_w \<and> c_int new_h
                   then ValueError Height_And_Width_Must_Be_Positive else OverflowError)"
  proof -
    have n: "min rw rh \<le> 0" using assms(5) rw(3) rh(3) by (auto simp: min_def)
    have b: "\<bar>min rw rh\<bar> \<le> 2 ^ 32" using rw(2) rh(2) by (simp add: min_def)
    from nonpositive_scale_size [OF assms(1,2) n b] obtain new_w new_h where
      z: "scaled_size img (min rw rh) = Inr (new_w, new_h)"
      and w: "new_w \<le> 0" and h: "new_h \<le> 0"
      by blast
    have "new_w < 1 \<or> new_h < 1" using w by simp
    note x = resize_below_one [OF p this, of lanczos]
    have y: "resize_to_poster lanczos img (tw, th) ''contain'' =
              Inl (if c_int new_w \<and> c_int new_h
                   then ValueError Height_And_Width_Must_Be_Positive else OverflowError)"
      unfolding contain_composition [OF c z] nonpositive_size_rejected [OF assms(1,2) w h] ..
    show ?thesis by (intro exI conjI) (rule c z w h x y)+
  qed
  have B: "\<exists>scale new_w new_h.
              cover_scale img tw th = Inr scale
            \<and> scaled_size img scale = Inr (new_w, new_h)
            \<and> new_w \<le> 0 \<and> new_h \<le> 0
            \<and> resize lanczos img (new_w, new_h) =
                Inl (if c_int new_w \<and> c_int new_h
                     then ValueError Height_And_Width_Must_Be_Positive else OverflowError)
            \<and> resize_to_poster lanczos img (tw, th) ''cover'' =
                Inl (if c_int new_w \<and> c_int new_h
                     then ValueError Height_And_Width_Must_Be_Positive else OverflowError)"
    if both: "tw \<le> 0 \<and> th \<le> 0"
  proof -
    have n: "max rw rh \<le> 0" using both rw(3) rh(3) by (auto simp: max_def)
    from nonpositive_scale_size [OF assms(1,2) n bmax] obtain new_w new_h where
      z: "scaled_size img (max rw rh) = Inr (new_w, new_h)"
      and w: "new_w \<le> 0" and h: "new_h \<le> 0"
      by blast
    have "new_w < 1 \<or> new_h < 1" using w by simp
    note x = resize_below_one [OF p this, of lanczos]
    have y: "resize_to_poster lanczos img (tw, th) ''cover'' =
              Inl (if c_int new_w \<and> c_int new_h
                   then ValueError Height_And_Width_Must_Be_Positive else OverflowError)"
      unfolding cover_composition [OF v z] nonpositive_size_rejected [OF assms(1,2) w h] ..
    show ?thesis by (intro exI conjI) (rule v z w h x y)+
  qed
  have C: "\<exists>scale new_w new_h e.
              cover_scale img tw th = Inr scale
            \<and> scaled_size img scale = Inr (new_w, new_h)
            \<and> resize_to_poster lanczos img (tw, th) ''cover'' = Inl e
            \<and> (resize lanczos img (new_w, new_h) = Inl e
               \<or> (\<exists>scaled. resize lanczos img (new_w, new_h) = Inr scaled)
                  \<and> e = ValueError (if tw < 0 then Coordinate_Right_Less_Than_Left
                                     else Coordinate_Lower_Less_Than_Upper))"
    if neg: "tw < 0 \<or> th < 0"
  proof -
    define new_w where "new_w = py_round (round_binary64 (of_int (width img) * max rw rh))"
    define new_h where "new_h = py_round (round_binary64 (of_int (height img) * max rw rh))"
    have z: "scaled_size img (max rw rh) = Inr (new_w, new_h)"
      by (simp add: scaled_size_value [OF assms(1,2) bmax] new_w_def new_h_def)
    note k = cover_composition [OF v z, of lanczos]
    show ?thesis
    proof (cases "resize lanczos img (new_w, new_h)")
      case (Inl e)
      have y: "resize_to_poster lanczos img (tw, th) ''cover'' = Inl e"
        by (simp add: k Inl bind_err_def)
      have o: "resize lanczos img (new_w, new_h) = Inl e
               \<or> (\<exists>scaled. resize lanczos img (new_w, new_h) = Inr scaled)
                  \<and> e = ValueError (if tw < 0 then Coordinate_Right_Less_Than_Left
                                     else Coordinate_Lower_Less_Than_Upper)"
        using Inl by simp
      show ?thesis by (intro exI conjI) (rule v z y o)+
    next
      case (Inr scaled)
      define e where "e = ValueError (if tw < 0 then Coordinate_Right_Less_Than_Left
                                     else Coordinate_Lower_Less_Than_Upper)"
      have y: "resize_to_poster lanczos img (tw, th) ''cover'' = Inl e"
        using neg by (auto simp: k Inr bind_err_def crop_def e_def)
      have o: "resize lanczos img (new_w, new_h) = Inl e
               \<or> (\<exists>scaled. resize lanczos img (new_w, new_h) = Inr scaled)
                  \<and> e = ValueError (if tw < 0 then Coordinate_Right_Less_Than_Left
                                     else Coordinate_Lower_Less_Than_Upper)"
        using Inr by (simp add: e_def)
      show ?thesis by (intro exI conjI) (rule v z y o)+
    qed
  qed
  show ?thesis using A B C by blast
qed

theorem nonpositive_target_fails_witness:
  "pil_dim (width (ramp 1000 1500)) \<and> pil_dim (height (ramp 1000 1500))
   \<and> \<bar>0 :: int\<bar> < 2 ^ 31 \<and> \<bar>- 7 :: int\<bar> < 2 ^ 31
   \<and> bind_err (contain_scale (ramp 1000 1500) 0 (- 7)) (scaled_size (ramp 1000 1500))
       = Inr (- 5, - 7)
   \<and> bind_err (cover_scale (ramp 1000 1500) 0 (- 7)) (scaled_size (ramp 1000 1500))
       = Inr (0, 0)
   \<and> resize_to_poster nearest (ramp 1000 1500) (0, - 7) ''contain''
       = Inl (ValueError Height_And_Width_Must_Be_Positive)
   \<and> resize_to_poster nearest (ramp 1000 1500) (0, - 7) ''cover''
       = Inl (ValueError Height_And_Width_Must_Be_Positive)
   \<and> pil_dim (width (ramp 1 1000)) \<and> pil_dim (height (ramp 1 1000))
   \<and> \<bar>- 1073741824 :: int\<bar> < 2 ^ 31 \<and> \<bar>1 :: int\<bar> < 2 ^ 31
   \<and> bind_err (contain_scale (ramp 1 1000) (- 1073741824) 1) (scaled_size (ramp 1 1000))
       = Inr (- 1073741824, - 1073741824000)
   \<and> resize_to_poster nearest (ramp 1 1000) (- 1073741824, 1) ''contain'' = Inl OverflowError
   \<and> pil_dim (width (ramp 1 1)) \<and> pil_dim (height (ramp 1 1))
   \<and> \<bar>- 3 :: int\<bar> < 2 ^ 31 \<and> \<bar>5 :: int\<bar> < 2 ^ 31
   \<and> bind_err (cover_scale (ramp 1 1) (- 3) 5) (scaled_size (ramp 1 1)) = Inr (5, 5)
   \<and> result_size (resize nearest (ramp 1 1) (5, 5)) = Inr (5, 5)
   \<and> resize_to_poster nearest (ramp 1 1) (- 3, 5) ''cover''
       = Inl (ValueError Coordinate_Right_Less_Than_Left)"
proof -
  have d: "pil_dim (width (ramp 1000 1500))" "pil_dim (height (ramp 1000 1500))"
      "\<bar>0 :: int\<bar> < 2 ^ 31" "\<bar>- 7 :: int\<bar> < 2 ^ 31" "(0 :: int) \<le> 0 \<or> (- 7 :: int) \<le> 0"
    by (simp_all add: pil_dim_def ramp_def)
  have d': "pil_dim (width (ramp 1 1000))" "pil_dim (height (ramp 1 1000))"
      "\<bar>- 1073741824 :: int\<bar> < 2 ^ 31" "\<bar>1 :: int\<bar> < 2 ^ 31"
      "(- 1073741824 :: int) \<le> 0 \<or> (1 :: int) \<le> 0"
    by (simp_all add: pil_dim_def ramp_def)
  have e1: "bind_err (contain_scale (ramp 1000 1500) 0 (- 7)) (scaled_size (ramp 1000 1500))
       = Inr (- 5, - 7)"
    by code_simp
  have e2: "bind_err (cover_scale (ramp 1000 1500) 0 (- 7)) (scaled_size (ramp 1000 1500))
       = Inr (0, 0)"
    by code_simp
  have e3: "bind_err (contain_scale (ramp 1 1000) (- 1073741824) 1) (scaled_size (ramp 1 1000))
       = Inr (- 1073741824, - 1073741824000)"
    by code_simp
  have d'': "pil_dim (width (ramp 1 1))" "pil_dim (height (ramp 1 1))"
      "\<bar>- 3 :: int\<bar> < 2 ^ 31" "\<bar>5 :: int\<bar> < 2 ^ 31" "(- 3 :: int) \<le> 0 \<or> (5 :: int) \<le> 0"
    by (simp_all add: pil_dim_def ramp_def)
  have e4: "bind_err (cover_scale (ramp 1 1) (- 3) 5) (scaled_size (ramp 1 1)) = Inr (5, 5)"
    by code_simp
  have e5: "resize nearest (ramp 1 1) (5, 5)
      = Inr \<lparr>width = 5, height = 5, px = nearest (ramp 1 1) 5 5\<rparr>"
    by (simp add: resize_within_limits lanczos_max_size_def)
  have e6: "result_size (resize nearest (ramp 1 1) (5, 5)) = Inr (5, 5)"
    by (simp add: e5 result_size_def)
  note t = nonpositive_target_fails [OF d, of nearest]
  note t' = nonpositive_target_fails [OF d', of nearest]
  note t'' = nonpositive_target_fails [OF d'', of nearest]
  from t [THEN conjunct1] obtain scale new_w new_h where
    s: "contain_scale (ramp 1000 1500) 0 (- 7) = Inr scale"
    and z: "scaled_size (ramp 1000 1500) scale = Inr (new_w, new_h)"
    and y: "resize_to_poster nearest (ramp 1000 1500) (0, - 7) ''contain'' =
              Inl (if c_int new_w \<and> c_int new_h
                   then ValueError Height_And_Width_Must_Be_Positive else OverflowError)"
    by (elim exE conjE)
  from e1 s z have "new_w = - 5" "new_h = - 7" by (simp_all add: bind_err_def)
  with y have r1: "resize_to_poster nearest (ramp 1000 1500) (0, - 7) ''contain''
       = Inl (ValueError Height_And_Width_Must_Be_Positive)"
    by (simp add: c_int_def)
  have both: "(0 :: int) \<le> 0 \<and> (- 7 :: int) \<le> 0" by simp
  from t [THEN conjunct2, THEN conjunct1, rule_format, OF both] obtain scale new_w new_h where
    s: "cover_scale (ramp 1000 1500) 0 (- 7) = Inr scale"
    and z: "scaled_size (ramp 1000 1500) scale = Inr (new_w, new_h)"
    and y: "resize_to_poster nearest (ramp 1000 1500) (0, - 7) ''cover'' =
              Inl (if c_int new_w \<and> c_int new_h
                   then ValueError Height_And_Width_Must_Be_Positive else OverflowError)"
    by (elim exE conjE)
  from e2 s z have "new_w = 0" "new_h = 0" by (simp_all add: bind_err_def)
  with y have r2: "resize_to_poster nearest (ramp 1000 1500) (0, - 7) ''cover''
       = Inl (ValueError Height_And_Width_Must_Be_Positive)"
    by (simp add: c_int_def)
  from t' [THEN conjunct1] obtain scale new_w new_h where
    s: "contain_scale (ramp 1 1000) (- 1073741824) 1 = Inr scale"
    and z: "scaled_size (ramp 1 1000) scale = Inr (new_w, new_h)"
    and y: "resize_to_poster nearest (ramp 1 1000) (- 1073741824, 1) ''contain'' =
              Inl (if c_int new_w \<and> c_int new_h
                   then ValueError Height_And_Width_Must_Be_Positive else OverflowError)"
    by (elim exE conjE)
  from e3 s z have "new_w = - 1073741824" "new_h = - 1073741824000"
    by (simp_all add: bind_err_def)
  with y have r3: "resize_to_poster nearest (ramp 1 1000) (- 1073741824, 1) ''contain''
       = Inl OverflowError"
    by (simp add: c_int_def)
  have neg: "(- 3 :: int) < 0 \<or> (5 :: int) < 0" by simp
  from t'' [THEN conjunct2, THEN conjunct2, rule_format, OF neg]
  obtain scale new_w new_h e where
    s: "cover_scale (ramp 1 1) (- 3) 5 = Inr scale"
    and z: "scaled_size (ramp 1 1) scale = Inr (new_w, new_h)"
    and y: "resize_to_poster nearest (ramp 1 1) (- 3, 5) ''cover'' = Inl e"
    and o: "resize nearest (ramp 1 1) (new_w, new_h) = Inl e
               \<or> (\<exists>scaled. resize nearest (ramp 1 1) (new_w, new_h) = Inr scaled)
                  \<and> e = ValueError (if (- 3 :: int) < 0
                                     then Coordinate_Right_Less_Than_Left
                                     else Coordinate_Lower_Less_Than_Upper)"
    by (elim exE conjE)
  from e4 s z have n: "new_w = 5" "new_h = 5" by (simp_all add: bind_err_def)
  from o have "e = ValueError Coordinate_Right_Less_Than_Left" by (simp add: n e5)
  with y have r4: "resize_to_poster nearest (ramp 1 1) (- 3, 5) ''cover''
       = Inl (ValueError Coordinate_Right_Less_Than_Left)"
    by simp
  show ?thesis using d(1-4) d'(1-4) d''(1-4) e1 e2 e3 e4 e6 r1 r2 r3 r4 by (intro conjI)
qed



end
